theory Spec2Isabelle
  imports Main "HOL-Library.Sublist" "HOL-Library.AList" "HOL-Library.Multiset"
begin

section \<open>Strings\<close>

text \<open>
  JavaScript strings are modelled as \<open>string\<close>, a list of 8-bit code units. The
  two line terminators U+2028 and U+2029 of JavaScript regular expressions lie outside
  this range; the line terminators that remain are LF and CR.
\<close>

definition backslash :: char where
  "backslash = CHR 0x5C"

definition squote :: char where
  "squote = CHR 0x27"

definition dquote :: char where
  "dquote = CHR 0x22"

definition newline :: char where
  "newline = CHR 0x0A"

definition is_line_terminator :: "char \<Rightarrow> bool" where
  "is_line_terminator c = (c = CHR 0x0A \<or> c = CHR 0x0D)"

text \<open>\<open>s.replace(/\.\./g, '')\<close>: one left-to-right pass, matches do not overlap.\<close>

fun strip_dotdot :: "string \<Rightarrow> string" where
  "strip_dotdot [] = []"
| "strip_dotdot [c] = [c]"
| "strip_dotdot (c # d # cs) =
     (if c = CHR ''.'' \<and> d = CHR ''.'' then strip_dotdot cs else c # strip_dotdot (d # cs))"

text \<open>\<open>s.replace(/\\/g, '/')\<close>.\<close>

definition backslash_to_slash :: "string \<Rightarrow> string" where
  "backslash_to_slash s = map (\<lambda>c. if c = backslash then CHR ''/'' else c) s"

text \<open>ASCII case mapping, as \<open>toLowerCase\<close> and the \<open>i\<close> flag act on ASCII letters.\<close>

definition to_lower :: "char \<Rightarrow> char" where
  "to_lower c =
     (let n = (of_char c :: nat) in if 65 \<le> n \<and> n \<le> 90 then char_of (n + 32) else c)"

definition to_upper :: "char \<Rightarrow> char" where
  "to_upper c =
     (let n = (of_char c :: nat) in if 97 \<le> n \<and> n \<le> 122 then char_of (n - 32) else c)"

definition toLowerCase :: "string \<Rightarrow> string" where
  "toLowerCase s = map to_lower s"

text \<open>Decimal rendering of a number, as a template literal does for an integer.\<close>

definition digit_char :: "nat \<Rightarrow> char" where
  "digit_char d = char_of (48 + d)"

fun string_of_nat :: "nat \<Rightarrow> string" where
  "string_of_nat n = (if n < 10 then [digit_char n] else string_of_nat (n div 10) @ [digit_char (n mod 10)])"

declare string_of_nat.simps [simp del]

definition string_of_int :: "int \<Rightarrow> string" where
  "string_of_int i = (if i < 0 then CHR ''-'' # string_of_nat (nat (- i)) else string_of_nat (nat i))"

definition join_with :: "string \<Rightarrow> string list \<Rightarrow> string" where
  "join_with sep xs = (case xs of [] \<Rightarrow> [] | y # ys \<Rightarrow> y @ concat (map (\<lambda>z. sep @ z) ys))"

section \<open>The POSIX path module\<close>

text \<open>
  The handler uses \<open>path.normalize\<close>, \<open>path.join\<close>, \<open>path.dirname\<close> and
  \<open>path.relative\<close> of the Node.js runtime, which are not part of this repository. They
  are modelled here for POSIX hosts (separator \<open>/\<close>), by path segments.
\<close>

fun segments :: "string \<Rightarrow> string list" where
  "segments [] = [] # []"
| "segments (c # cs) =
     (if c = CHR ''/'' then [] # segments cs
      else (case segments cs of [] \<Rightarrow> [c] # [] | s # ss \<Rightarrow> (c # s) # ss))"

text \<open>
  \<open>normalizeString\<close>: empty and \<open>.\<close> segments are dropped; \<open>..\<close> removes the segment
  before it, and is kept only when nothing is left to remove and the path is relative.
\<close>

fun norm_segs :: "bool \<Rightarrow> string list \<Rightarrow> string list \<Rightarrow> string list" where
  "norm_segs allowAboveRoot st [] = st"
| "norm_segs allowAboveRoot st (s # ss) =
     (if s = [] \<or> s = ''.'' then norm_segs allowAboveRoot st ss
      else if s = ''..'' then
        (if st \<noteq> [] \<and> last st \<noteq> ''..'' then norm_segs allowAboveRoot (butlast st) ss
         else if allowAboveRoot then norm_segs allowAboveRoot (st @ [''..'']) ss
         else norm_segs allowAboveRoot st ss)
      else norm_segs allowAboveRoot (st @ [s]) ss)"

definition path_normalize :: "string \<Rightarrow> string" where
  "path_normalize p =
     (if p = [] then ''.''
      else
        let isAbsolute = (hd p = CHR ''/'');
            trailingSeparator = (last p = CHR ''/'');
            q = join_with ''/'' (norm_segs (\<not> isAbsolute) [] (segments p))
        in if q = [] then (if isAbsolute then ''/'' else if trailingSeparator then ''./'' else ''.'')
           else (if isAbsolute then ''/'' else []) @ q @ (if trailingSeparator then ''/'' else []))"

definition path_join :: "string list \<Rightarrow> string" where
  "path_join args =
     (case filter (\<lambda>a. a \<noteq> []) args of
        [] \<Rightarrow> ''.''
      | a # as \<Rightarrow> path_normalize (join_with ''/'' (a # as)))"

text \<open>
  \<open>path.dirname\<close>: the loop runs \<open>i\<close> from the last index down to 1 and stops at the
  first separator that follows a non-separator.
\<close>

fun dirname_scan :: "string \<Rightarrow> nat \<Rightarrow> bool \<Rightarrow> nat option" where
  "dirname_scan p 0 matchedSlash = None"
| "dirname_scan p (Suc j) matchedSlash =
     (if p ! Suc j = CHR ''/'' then
        (if \<not> matchedSlash then Some (Suc j) else dirname_scan p j matchedSlash)
      else dirname_scan p j False)"

definition path_dirname :: "string \<Rightarrow> string" where
  "path_dirname p =
     (if p = [] then ''.''
      else
        let hasRoot = (hd p = CHR ''/'') in
        case dirname_scan p (length p - 1) True of
          None \<Rightarrow> (if hasRoot then ''/'' else ''.'')
        | Some e \<Rightarrow> (if hasRoot \<and> e = 1 then ''//'' else take e p))"

text \<open>
  \<open>path.resolve\<close> of one argument and \<open>path.relative\<close>; \<open>cwd\<close> is the working
  directory of the process, used when the argument is not absolute.
\<close>

definition path_resolve :: "string \<Rightarrow> string \<Rightarrow> string list" where
  "path_resolve cwd p =
     (if p \<noteq> [] \<and> hd p = CHR ''/'' then norm_segs False [] (segments p)
      else norm_segs False [] (segments (cwd @ ''/'' @ p)))"

fun drop_common :: "string list \<Rightarrow> string list \<Rightarrow> string list \<times> string list" where
  "drop_common (x # xs) (y # ys) = (if x = y then drop_common xs ys else (x # xs, y # ys))"
| "drop_common xs ys = (xs, ys)"

definition path_relative :: "string \<Rightarrow> string \<Rightarrow> string \<Rightarrow> string" where
  "path_relative cwd from to =
     (if from = to then []
      else case drop_common (path_resolve cwd from) (path_resolve cwd to) of
        (fs, ts) \<Rightarrow> join_with ''/'' (replicate (length fs) ''..'' @ ts))"

section \<open>Effects, errors and the environment\<close>

text \<open>
  An exception is a value. A system error carries its \<open>code\<close> (\<open>ENOENT\<close>,
  \<open>EACCES\<close>, ...); a \<open>TypeError\<close> has none.
\<close>

datatype exn = SystemError string | TypeError

fun code_of :: "exn \<Rightarrow> string option" where
  "code_of (SystemError c) = Some c"
| "code_of TypeError = None"

text \<open>What a run does to the outside: filesystem calls, jobs queued on the worker pool,
  reads of the plugin registry, log lines, and the call of Express's \<open>next\<close>.\<close>

datatype event =
    FsStat string
  | FsReaddir string
  | FsReadFile string
  | QueueCompressJS string
  | QueueCompressCSS string
  | PluginLookup string
  | LoggerInfo string
  | ConsoleError string
  | NextCalled exn

text \<open>
  A header object is a JavaScript object with string values: an association list in
  insertion order. Header objects live in a store and are passed by reference, since the
  loopback fetcher writes response headers into the object it was given.
\<close>

type_synonym headers = "(string \<times> string) list"

type_synonym ref = nat

record world =
  heap :: "ref \<Rightarrow> headers"
  next_ref :: ref
  trace :: "event list"

text \<open>An asynchronous computation returns, throws (its promise rejects), or never
  settles.\<close>

datatype 'a outcome = Return 'a | Throw exn | Pending

type_synonym 'a io = "world \<Rightarrow> 'a outcome \<times> world"

definition ret :: "'a \<Rightarrow> 'a io" where
  "ret x = (\<lambda>w. (Return x, w))"

definition throw :: "exn \<Rightarrow> 'a io" where
  "throw e = (\<lambda>w. (Throw e, w))"

definition pending :: "'a io" where
  "pending = (\<lambda>w. (Pending, w))"

definition bind :: "'a io \<Rightarrow> ('a \<Rightarrow> 'b io) \<Rightarrow> 'b io" where
  "bind m f = (\<lambda>w. case m w of
       (Return x, w') \<Rightarrow> f x w'
     | (Throw e, w') \<Rightarrow> (Throw e, w')
     | (Pending, w') \<Rightarrow> (Pending, w'))"

text \<open>\<open>try { m } catch (err) { ... }\<close>: the exception becomes a value.\<close>

definition try_catch :: "'a io \<Rightarrow> (exn + 'a) io" where
  "try_catch m = (\<lambda>w. case m w of
       (Return x, w') \<Rightarrow> (Return (Inr x), w')
     | (Throw e, w') \<Rightarrow> (Return (Inl e), w')
     | (Pending, w') \<Rightarrow> (Pending, w'))"

definition emit :: "event \<Rightarrow> unit io" where
  "emit ev = (\<lambda>w. (Return (), w\<lparr>trace := trace w @ [ev]\<rparr>))"

fun foldM :: "('s \<Rightarrow> 'a \<Rightarrow> 's io) \<Rightarrow> 'a list \<Rightarrow> 's \<Rightarrow> 's io" where
  "foldM f [] s = ret s"
| "foldM f (x # xs) s = bind (f s x) (foldM f xs)"

text \<open>The object literal \<open>{}\<close>: a fresh, empty header object.\<close>

definition new_object :: "ref io" where
  "new_object = (\<lambda>w. (Return (next_ref w),
       w\<lparr>heap := (heap w)(next_ref w := []), next_ref := Suc (next_ref w)\<rparr>))"

definition get_prop :: "ref \<Rightarrow> string \<Rightarrow> string option io" where
  "get_prop r k = (\<lambda>w. (Return (map_of (heap w r) k), w))"

definition set_prop :: "ref \<Rightarrow> string \<Rightarrow> string \<Rightarrow> unit io" where
  "set_prop r k v = (\<lambda>w. (Return (), w\<lparr>heap := (heap w)(r := AList.update k v (heap w r))\<rparr>))"

text \<open>A file's content is a \<open>Buffer\<close> (read without an encoding) or a string. Every
  \<open>Buffer\<close> is truthy, also the empty one; a string is truthy when it is not empty.\<close>

datatype content = Buffer string | Str string

fun content_toString :: "content \<Rightarrow> string" where
  "content_toString (Buffer b) = b"
| "content_toString (Str s) = s"

fun truthy :: "content \<Rightarrow> bool" where
  "truthy (Buffer b) = True"
| "truthy (Str s) = (s \<noteq> [])"

record stats =
  mtime :: int
  isFile :: bool

text \<open>What the worker's \<open>compressJS\<close> resolves to: an object with an \<open>error\<close> field
  or a \<open>code\<close> field, unless the call throws.\<close>

datatype compress_result = CompressThrows exn | CompressResult bool "string option"

text \<open>
  An entry of the plugin registry is an object whose \<open>package\<close> may be undefined; the
  \<open>realPath\<close> of a package may be undefined too.
\<close>

datatype package = Package "string option"

datatype plugin = Plugin "package option"

text \<open>
  The collaborators of the module. Times are milliseconds since the epoch, as the time
  value of a \<open>Date\<close>. \<open>parseDate\<close> is \<open>new Date(string)\<close> (\<open>None\<close> is the invalid
  date), \<open>toUTCString\<close> its rendering, \<open>parseURL\<close> gives \<open>pathname\<close> and \<open>search\<close>
  of \<open>new URL(url)\<close> (\<open>None\<close> when it throws), \<open>mime_lookup\<close> is \<open>mime.lookup\<close>
  (\<open>None\<close> is \<open>false\<close>). The clock reads \<open>now\<close> throughout one request.
  \<open>plugins\<close> is the registry \<open>plugins.plugins\<close>: \<open>None\<close> where the property is
  missing or falsy. \<open>finish_order\<close> is the scheduler's part in \<open>getAceFile\<close>: the order
  in which the callbacks started for a list of paths come to append their text, a
  permutation of that list.
\<close>

record env =
  module_dirname :: string
  cwd :: string
  fs_stat :: "string \<Rightarrow> exn + stats"
  fs_readdir :: "string \<Rightarrow> exn + string list"
  fs_readFile :: "string \<Rightarrow> exn + string"
  plugins :: "string \<Rightarrow> plugin option"
  settings_minify :: bool
  settings_maxAge :: "int option"
  mime_lookup :: "string \<Rightarrow> string option"
  compressJS :: "string \<Rightarrow> compress_result"
  compressCSS :: "string \<Rightarrow> string \<Rightarrow> exn + string"
  kernelSource :: string
  requireLastModified :: int
  now :: int
  parseDate :: "string \<Rightarrow> int option"
  toUTCString :: "int \<Rightarrow> string"
  parseURL :: "string \<Rightarrow> (string \<times> string) option"
  finish_order :: "string list \<Rightarrow> string list"

definition ROOT_DIR :: "env \<Rightarrow> string" where
  "ROOT_DIR env = path_normalize (module_dirname env @ ''/../../static/'')"

definition LIBRARY_WHITELIST :: "string list" where
  "LIBRARY_WHITELIST = [''async'', ''js-cookie'', ''security'', ''tinycon'', ''underscore'', ''unorm'']"

definition of_result :: "exn + 'a \<Rightarrow> 'a io" where
  "of_result r = (case r of Inl e \<Rightarrow> throw e | Inr x \<Rightarrow> ret x)"

definition stat_io :: "env \<Rightarrow> string \<Rightarrow> stats io" where
  "stat_io env p = bind (emit (FsStat p)) (\<lambda>_. of_result (fs_stat env p))"

definition readdir_io :: "env \<Rightarrow> string \<Rightarrow> string list io" where
  "readdir_io env p = bind (emit (FsReaddir p)) (\<lambda>_. of_result (fs_readdir env p))"

definition readFile_io :: "env \<Rightarrow> string \<Rightarrow> string io" where
  "readFile_io env p = bind (emit (FsReadFile p)) (\<lambda>_. of_result (fs_readFile env p))"

section \<open>Freshness: \<open>statFile\<close> and \<open>lastModifiedDateOfEverything\<close>\<close>

text \<open>
  The two \<open>Promise.all\<close> of \<open>lastModifiedDateOfEverything\<close> run the folders and their
  entries in list order here. The comparison keeps the later of two times, so the
  result does not depend on that order.
\<close>

definition later :: "int option \<Rightarrow> stats \<Rightarrow> int option" where
  "later latestModification st =
     (case latestModification of
        None \<Rightarrow> Some (mtime st)
      | Some l \<Rightarrow> (if mtime st > l then Some (mtime st) else Some l))"

definition check_folder :: "env \<Rightarrow> int option \<Rightarrow> string \<Rightarrow> int option io" where
  "check_folder env latestModification path =
     bind (readdir_io env path) (\<lambda>files.
       foldM (\<lambda>latest filename.
           bind (stat_io env (path @ ''/'' @ filename)) (\<lambda>st. ret (later latest st)))
         (files @ [''.'']) latestModification)"

definition lastModifiedDateOfEverything :: "env \<Rightarrow> int option io" where
  "lastModifiedDateOfEverything env =
     foldM (check_folder env) [ROOT_DIR env @ ''js/'', ROOT_DIR env @ ''css/''] None"

text \<open>
  \<open>statFile\<close>. The budget \<open>dirStatLimit\<close> is a natural number (the one caller passes
  3): the first equation is the case \<open>dirStatLimit < 1\<close>. The start-up time
  \<open>_requireLastModified\<close> is one \<open>Date\<close> object, which \<open>minify\<close> cuts to whole seconds in
  place; here \<open>minify\<close> cuts the value it was given, which comes to the same response.
\<close>

fun statFile :: "env \<Rightarrow> string \<Rightarrow> nat \<Rightarrow> (int option \<times> bool) io" where
  "statFile env filename 0 = ret (None, False)"
| "statFile env filename (Suc dirStatLimit) =
     (if filename = [] \<or> filename = ''/'' then ret (None, False)
      else if filename = ''js/ace.js'' then
        bind (lastModifiedDateOfEverything env) (\<lambda>date. ret (date, True))
      else if filename = ''js/require-kernel.js'' then
        ret (Some (requireLastModified env), True)
      else
        bind (try_catch (stat_io env (ROOT_DIR env @ filename))) (\<lambda>r.
          case r of
            Inl err \<Rightarrow>
              (if code_of err = Some ''ENOENT'' then
                 bind (statFile env (path_dirname filename) dirStatLimit)
                   (\<lambda>(date, _). ret (date, False))
               else throw err)
          | Inr st \<Rightarrow> ret (Some (mtime st), isFile st)))"

section \<open>Path resolution\<close>

text \<open>
  Lines 101 to 114 of \<open>minify\<close>: join under the root, normalise, delete every
  \<open>..\<close>, and keep the part after the root; \<open>None\<close> is the 404 branch.
\<close>

definition confine :: "env \<Rightarrow> string \<Rightarrow> string option" where
  "confine env requested =
     (let filename = path_normalize (path_join [ROOT_DIR env, requested]);
          filename = strip_dotdot filename
      in if prefix (ROOT_DIR env) filename
         then Some (backslash_to_slash (drop (length (ROOT_DIR env)) filename))
         else None)"

text \<open>
  The match of \<open>/^plugins\/([^/]+)(\/(?:(static\/.*)|.*))?$/\<close>: the groups 1, 2 and 3.
  Group 1 takes every character up to the first \<open>/\<close>; the dot matches no line
  terminator and \<open>$\<close> only the end of the input, so a line terminator after the first
  \<open>/\<close> makes the whole match fail.
\<close>

definition match_plugin_path :: "string \<Rightarrow> (string \<times> string option \<times> string option) option" where
  "match_plugin_path filename =
     (if \<not> prefix ''plugins/'' filename then None
      else
        let s = drop 8 filename;
            library = takeWhile (\<lambda>c. c \<noteq> CHR ''/'') s;
            tail = dropWhile (\<lambda>c. c \<noteq> CHR ''/'') s
        in if library = [] then None
           else if tail = [] then Some (library, None, None)
           else if list_ex is_line_terminator (drop 1 tail) then None
           else Some (library, Some tail,
                  if prefix ''static/'' (drop 1 tail) then Some (drop 1 tail) else None))"

text \<open>
  Lines 121 to 137. The registry is read for the condition of line 126, before the
  whitelist is looked at, and once more at line 127 when the plugin branch is taken.
  There \<open>plugin.package.realPath\<close> throws a \<open>TypeError\<close> when the entry has no
  package, and an undefined \<open>realPath\<close> is concatenated as the text \<open>undefined\<close>.
\<close>

definition rewrite_plugin_path :: "env \<Rightarrow> string \<Rightarrow> string io" where
  "rewrite_plugin_path env filename =
     (case match_plugin_path filename of
        None \<Rightarrow> ret filename
      | Some (library, match2, match3) \<Rightarrow>
          let libraryPath = (case match2 of None \<Rightarrow> [] | Some p \<Rightarrow> p) in
          bind (emit (PluginLookup library)) (\<lambda>_.
            case (plugins env library, match3) of
              (Some _, Some _) \<Rightarrow>
                bind (emit (PluginLookup library)) (\<lambda>_.
                  case plugins env library of
                    Some (Plugin (Some (Package realPath))) \<Rightarrow>
                      let pluginPath = (case realPath of None \<Rightarrow> ''undefined'' | Some p \<Rightarrow> p) in
                      ret (backslash_to_slash
                        (path_relative (cwd env) (ROOT_DIR env) (pluginPath @ libraryPath)))
                  | _ \<Rightarrow> throw TypeError)
            | _ \<Rightarrow>
                (if library \<in> set LIBRARY_WHITELIST
                 then ret (''../node_modules/'' @ library @ libraryPath)
                 else ret filename)))"

section \<open>Request and response objects\<close>

record request =
  req_url :: string
  req_method :: string
  req_filename :: string
  req_headers :: ref

text \<open>
  The response object of \<open>requestURI\<close>: \<open>status\<close> and \<open>chunks\<close> are the closure's
  locals \<open>status\<close> and \<open>content\<close>, \<open>res_headers\<close> the header object that the
  methods write to, \<open>resolved\<close> the value the promise was resolved with.
\<close>

record response =
  status :: nat
  res_headers :: ref
  chunks :: "content list"
  resolved :: "(nat \<times> ref \<times> string) option"

definition res_writeHead :: "nat \<Rightarrow> headers \<Rightarrow> response \<Rightarrow> response io" where
  "res_writeHead st hs res =
     bind (foldM (\<lambda>_ (k, v). set_prop (res_headers res) k v) hs ())
       (\<lambda>_. ret (res\<lparr>status := st\<rparr>))"

definition res_setHeader :: "string \<Rightarrow> string \<Rightarrow> response \<Rightarrow> response io" where
  "res_setHeader h v res = bind (set_prop (res_headers res) (toLowerCase h) v) (\<lambda>_. ret res)"

definition res_header :: "string \<Rightarrow> string \<Rightarrow> response \<Rightarrow> response io" where
  "res_header h v res = bind (set_prop (res_headers res) (toLowerCase h) v) (\<lambda>_. ret res)"

definition res_write :: "content \<Rightarrow> response \<Rightarrow> response io" where
  "res_write c res = ret (if truthy c then res\<lparr>chunks := chunks res @ [c]\<rparr> else res)"

definition res_end :: "response \<Rightarrow> response io" where
  "res_end res =
     ret (case resolved res of
            None \<Rightarrow> res\<lparr>resolved :=
                     Some (status res, res_headers res, concat (map content_toString (chunks res)))\<rparr>
          | Some _ \<Rightarrow> res)"

section \<open>Content: \<open>getFile\<close>, \<open>getAceFile\<close>, \<open>getFileCompressed\<close>\<close>

text \<open>\<open>JSON.stringify\<close> of a string, or of \<open>null\<close>.\<close>

definition hex_digit :: "nat \<Rightarrow> char" where
  "hex_digit d = (if d < 10 then char_of (48 + d) else char_of (87 + d))"

definition json_escape :: "char \<Rightarrow> string" where
  "json_escape c =
     (let n = (of_char c :: nat) in
      if c = dquote then [backslash, dquote]
      else if c = backslash then [backslash, backslash]
      else if n = 8 then [backslash, CHR ''b'']
      else if n = 9 then [backslash, CHR ''t'']
      else if n = 10 then [backslash, CHR ''n'']
      else if n = 12 then [backslash, CHR ''f'']
      else if n = 13 then [backslash, CHR ''r'']
      else if n < 32 then [backslash, CHR ''u'', CHR ''0'', CHR ''0'', hex_digit (n div 16), hex_digit (n mod 16)]
      else [c])"

definition JSON_stringify :: "string option \<Rightarrow> string" where
  "JSON_stringify v =
     (case v of None \<Rightarrow> ''null'' | Some s \<Rightarrow> [dquote] @ concat (map json_escape s) @ [dquote])"

text \<open>
  One match of \<open>/\$\$INCLUDE_[a-zA-Z_]+\((['"])([^'"]*)\1\)/gi\<close> at the start of the
  input: group 2 and the input after the match.
\<close>

definition is_ident :: "char \<Rightarrow> bool" where
  "is_ident c = (let n = (of_char c :: nat) in (65 \<le> n \<and> n \<le> 90) \<or> (97 \<le> n \<and> n \<le> 122) \<or> n = 95)"

definition is_quote :: "char \<Rightarrow> bool" where
  "is_quote c = (c = squote \<or> c = dquote)"

definition match_include :: "string \<Rightarrow> (string \<times> string) option" where
  "match_include s =
     (if take 2 s = ''$$'' \<and> map to_upper (take 8 (drop 2 s)) = ''INCLUDE_'' then
        let s1 = drop 10 s;
            s2 = dropWhile is_ident s1
        in if takeWhile is_ident s1 = [] then None
           else (case s2 of
               p # q # s3 \<Rightarrow>
                 (if p = CHR ''('' \<and> is_quote q then
                    (case dropWhile (\<lambda>c. \<not> is_quote c) s3 of
                       q' # r # s5 \<Rightarrow>
                         (if q' = q \<and> r = CHR '')''
                          then Some (takeWhile (\<lambda>c. \<not> is_quote c) s3, s5) else None)
                     | _ \<Rightarrow> None)
                  else None)
             | _ \<Rightarrow> None)
      else None)"

text \<open>The \<open>exec\<close> loop: after a match the search goes on behind it, otherwise one
  character further.\<close>

function scan_includes :: "string \<Rightarrow> string list" where
  "scan_includes [] = []"
| "scan_includes (c # cs) =
     (case match_include (c # cs) of
        Some (b, rest) \<Rightarrow> b # scan_includes rest
      | None \<Rightarrow> scan_includes cs)"
  by pat_completeness auto
termination
proof (relation "measure length")
  show "wf (measure length)" by simp
next
  fix c :: char and cs b rest x
  assume "match_include (c # cs) = Some x" and "(b, rest) = x"
  then have m: "match_include (c # cs) = Some (b, rest)" by simp
  then obtain p q s3 q' d where
    s2: "dropWhile is_ident (drop 10 (c # cs)) = p # q # s3" and
    s4: "dropWhile (\<lambda>c. \<not> is_quote c) s3 = q' # d # rest"
    by (auto simp: match_include_def Let_def split: if_splits list.splits)
  have "length rest < length s3"
    using length_dropWhile_le [of "\<lambda>c. \<not> is_quote c" s3] s4 by simp
  moreover have "length s3 < length (drop 10 (c # cs))"
    using length_dropWhile_le [of is_ident "drop 10 (c # cs)"] s2 by simp
  ultimately have "length rest < length (c # cs)" by simp
  then show "(rest, c # cs) \<in> measure length" by simp
next
  fix c :: char and cs
  show "(cs, c # cs) \<in> measure length" by simp
qed

definition requireDefinition :: "env \<Rightarrow> string" where
  "requireDefinition env = ''var require = '' @ kernelSource env @ '';'' @ [newline]"

text \<open>
  \<open>getAceFile\<close>, \<open>getFile\<close> and \<open>getFileCompressed\<close> reach \<open>minify\<close> again through
  \<open>requestURI\<close>. They take that fetcher as the argument \<open>fetch\<close>; the knot is tied in
  \<open>minify\<close> below.

  The callbacks of \<open>Promise.all\<close> in \<open>getAceFile\<close> run concurrently, and each appends
  to \<open>data\<close> when its own fetch has settled. The fetches do not influence each other
  (each has a header object of its own and the filesystem is only read), so here they
  run one after the other, in the order \<open>finish_order\<close> in which they finish.
\<close>

type_synonym fetcher = "string \<Rightarrow> string \<Rightarrow> ref \<Rightarrow> (nat \<times> ref \<times> string) io"

definition resourceURI_of :: "string \<Rightarrow> string" where
  "resourceURI_of filename =
     backslash_to_slash (''http://invalid.invalid'' @ path_normalize (path_join [''/static/'', filename]))"

definition embed :: "fetcher \<Rightarrow> string \<Rightarrow> string \<Rightarrow> string io" where
  "embed fetch data filename =
     (let resourceURI = resourceURI_of filename in
      bind new_object (\<lambda>hdrs.
      bind (fetch resourceURI ''GET'' hdrs) (\<lambda>(st, _, body).
        let error = \<not> (st = 200 \<or> st = 404) in
        if \<not> error then
          ret (data @ ''Ace2Editor.EMBEDED['' @ JSON_stringify (Some filename) @ ''] = '' @
               JSON_stringify (if st = 200 then Some body else None) @ '';'' @ [newline])
        else
          bind (emit (ConsoleError (''getAceFile(): error getting '' @ resourceURI @
                  ''. Status code: '' @ string_of_nat st)))
            (\<lambda>_. ret data))))"

definition referenced :: "env \<Rightarrow> string \<Rightarrow> string list" where
  "referenced env data =
     (if settings_minify env then scan_includes data else []) @ [''../static/js/require-kernel.js'']"

definition getAceFile :: "fetcher \<Rightarrow> env \<Rightarrow> string io" where
  "getAceFile fetch env =
     bind (readFile_io env (ROOT_DIR env @ ''js/ace.js'')) (\<lambda>data.
       let filenames = referenced env data;
           data = data @ '';'' @ [newline] @
                  ''Ace2Editor.EMBEDED = Ace2Editor.EMBEDED || {};'' @ [newline]
       in foldM (embed fetch) (finish_order env filenames) data)"

definition getFile :: "fetcher \<Rightarrow> env \<Rightarrow> string \<Rightarrow> content io" where
  "getFile fetch env filename =
     (if filename = ''js/ace.js'' then bind (getAceFile fetch env) (\<lambda>s. ret (Str s))
      else if filename = ''js/require-kernel.js'' then ret (Str (requireDefinition env))
      else bind (readFile_io env (ROOT_DIR env @ filename)) (\<lambda>b. ret (Buffer b)))"

text \<open>
  \<open>getFileCompressed\<close>. A job queued on the pool runs; the pool's own scheduling is not
  modelled. The text of a caught error is not part of the logged line here.
\<close>

definition getFileCompressed :: "fetcher \<Rightarrow> env \<Rightarrow> string \<Rightarrow> string option \<Rightarrow> content io" where
  "getFileCompressed fetch env filename contentType =
     bind (getFile fetch env filename) (\<lambda>content.
       if \<not> truthy content \<or> \<not> settings_minify env then ret content
       else if contentType = Some ''application/javascript'' then
         bind (emit (QueueCompressJS filename)) (\<lambda>_.
         bind (emit (LoggerInfo (''Compress JS file '' @ filename @ ''.''))) (\<lambda>_.
           let content = Str (content_toString content) in
           case compressJS env (content_toString content) of
             CompressThrows error \<Rightarrow>
               bind (emit (ConsoleError (''getFile() returned an error in getFileCompressed('' @
                       filename @ '', application/javascript)'')))
                 (\<lambda>_. ret content)
           | CompressResult True _ \<Rightarrow>
               bind (emit (ConsoleError (''Error compressing JS ('' @ filename @ '') using terser'')))
                 (\<lambda>_. ret content)
           | CompressResult False (Some code) \<Rightarrow> ret (Str code)
           | CompressResult False None \<Rightarrow>
               bind (emit (ConsoleError (''getFile() returned an error in getFileCompressed('' @
                       filename @ '', application/javascript)'')))
                 (\<lambda>_. ret content)))
       else if contentType = Some ''text/css'' then
         bind (emit (QueueCompressCSS filename)) (\<lambda>_.
         bind (emit (LoggerInfo (''Compress CSS file '' @ filename @ ''.''))) (\<lambda>_.
           case compressCSS env filename (ROOT_DIR env) of
             Inl error \<Rightarrow>
               bind (emit (ConsoleError (''CleanCSS.minify() returned an error on '' @ filename)))
                 (\<lambda>_. ret content)
           | Inr css \<Rightarrow> ret (Str css)))
       else ret content)"

section \<open>The handler \<open>minify\<close> and the loopback fetcher\<close>

definition truncate_ms :: "int \<Rightarrow> int" where
  "truncate_ms t = t - t mod 1000"

text \<open>\<open>new Date(h) >= date\<close>: an invalid date compares false, \<open>null\<close> counts as 0.\<close>

fun date_ge :: "int option \<Rightarrow> int option \<Rightarrow> bool" where
  "date_ge None d = False"
| "date_ge (Some a) None = (a \<ge> 0)"
| "date_ge (Some a) (Some d) = (a \<ge> d)"

definition mime_toString :: "string option \<Rightarrow> string" where
  "mime_toString contentType = (case contentType of None \<Rightarrow> ''false'' | Some t \<Rightarrow> t)"

text \<open>Lines 142 to 151: the freshness headers, written when a timestamp was found.\<close>

definition set_freshness_headers :: "env \<Rightarrow> int option \<Rightarrow> response \<Rightarrow> response io" where
  "set_freshness_headers env date res =
     (case date of
        None \<Rightarrow> ret res
      | Some d \<Rightarrow>
          bind (res_setHeader ''last-modified'' (toUTCString env d) res) (\<lambda>res.
          bind (res_setHeader ''date'' (toUTCString env (now env)) res) (\<lambda>res.
            case settings_maxAge env of
              None \<Rightarrow> ret res
            | Some maxAge \<Rightarrow>
                bind (res_setHeader ''expires'' (toUTCString env (now env + maxAge * 1000)) res) (\<lambda>res.
                res_setHeader ''cache-control'' (''max-age='' @ string_of_int maxAge) res))))"

text \<open>
  \<open>minify\<close> in two stages. \<open>locate\<close> is lines 101 to 151: it resolves the requested
  path, stats the file and writes the freshness headers; \<open>None\<close> is the rejected path.
  \<open>respond\<close> is lines 139 and 153 to 172, the chain that picks the status.
\<close>

definition locate :: "env \<Rightarrow> string \<Rightarrow> response \<Rightarrow> (string \<times> int option \<times> bool \<times> response) option io" where
  "locate env requested res =
     (case confine env requested of
        None \<Rightarrow> ret None
      | Some confined \<Rightarrow>
          bind (rewrite_plugin_path env confined) (\<lambda>filename.
          bind (statFile env filename 3) (\<lambda>(date, exists).
          let date = map_option truncate_ms date in
          bind (set_freshness_headers env date res) (\<lambda>res.
          ret (Some (filename, date, exists, res))))))"

definition respond ::
  "fetcher \<Rightarrow> env \<Rightarrow> request \<Rightarrow> string \<Rightarrow> int option \<Rightarrow> bool \<Rightarrow> response \<Rightarrow> response io" where
  "respond fetch env req filename date exists res =
     (let contentType = mime_lookup env filename in
      if \<not> exists then bind (res_writeHead 404 [] res) res_end
      else
        bind (get_prop (req_headers req) ''if-modified-since'') (\<lambda>ims.
          if date_ge (Option.bind ims (parseDate env)) date then
            bind (res_writeHead 304 [] res) res_end
          else if req_method req = ''HEAD'' then
            bind (res_header ''Content-Type'' (mime_toString contentType) res) (\<lambda>res.
            bind (res_writeHead 200 [] res) res_end)
          else if req_method req = ''GET'' then
            bind (getFileCompressed fetch env filename contentType) (\<lambda>content.
            bind (res_header ''Content-Type'' (mime_toString contentType) res) (\<lambda>res.
            bind (res_writeHead 200 [] res) (\<lambda>res.
            bind (res_write content res) res_end)))
          else
            bind (res_writeHead 405 [(''allow'', ''HEAD, GET'')] res) res_end))"

definition minify_with :: "fetcher \<Rightarrow> env \<Rightarrow> request \<Rightarrow> response \<Rightarrow> response io" where
  "minify_with fetch env req res =
     bind (locate env (req_filename req) res) (\<lambda>located.
       case located of
         None \<Rightarrow> bind (res_writeHead 404 [] res) res_end
       | Some (filename, date, exists, res) \<Rightarrow> respond fetch env req filename date exists res)"

text \<open>
  \<open>requestURI\<close>: the request and the response share the header object \<open>hdrs\<close>. The
  promise resolves with what \<open>end\<close> recorded and rejects when the handler throws.
\<close>

definition fresh_response :: "ref \<Rightarrow> response" where
  "fresh_response hdrs = \<lparr>status = 500, res_headers = hdrs, chunks = [], resolved = None\<rparr>"

definition strip_static :: "string \<Rightarrow> string" where
  "strip_static s = (if prefix ''/static/'' s then drop 8 s else s)"

definition requestURI_with ::
  "(request \<Rightarrow> response \<Rightarrow> response io) \<Rightarrow> env \<Rightarrow> string \<Rightarrow> string \<Rightarrow> ref \<Rightarrow> (nat \<times> ref \<times> string) io" where
  "requestURI_with handler env url method hdrs =
     (case parseURL env url of
        None \<Rightarrow> throw TypeError
      | Some (pathname, search) \<Rightarrow>
          let mockRequest = \<lparr>req_url = url, req_method = method,
                             req_filename = strip_static (pathname @ search), req_headers = hdrs\<rparr>;
              mockResponse = fresh_response hdrs
          in bind (handler mockRequest mockResponse) (\<lambda>res.
               case resolved res of Some r \<Rightarrow> ret r | None \<Rightarrow> pending))"

text \<open>
  The recursion of \<open>minify\<close> through \<open>getAceFile\<close> and \<open>requestURI\<close> need not end (the
  bootstrap file may include itself): the first argument bounds its depth, and a run
  that exceeds it never settles.
\<close>

primrec minify :: "nat \<Rightarrow> env \<Rightarrow> request \<Rightarrow> response \<Rightarrow> response io" where
  "minify 0 = (\<lambda>env req res. pending)"
| "minify (Suc n) = (\<lambda>env. minify_with (requestURI_with (minify n env) env) env)"

declare minify.simps [simp del]

definition requestURI :: "nat \<Rightarrow> env \<Rightarrow> fetcher" where
  "requestURI n env = requestURI_with (minify n env) env"

fun mapM :: "('a \<Rightarrow> 'b io) \<Rightarrow> 'a list \<Rightarrow> 'b list io" where
  "mapM f [] = ret []"
| "mapM f (x # xs) = bind (f x) (\<lambda>y. bind (mapM f xs) (\<lambda>ys. ret (y # ys)))"

text \<open>\<open>requestURIs\<close>: every fetch gets the same header object. The result is the three
  arguments of the callback; the fetches run in list order.\<close>

definition requestURIs ::
  "nat \<Rightarrow> env \<Rightarrow> string list \<Rightarrow> string \<Rightarrow> ref \<Rightarrow> (nat list \<times> ref list \<times> string list) io" where
  "requestURIs n env locations method hdrs =
     bind (mapM (\<lambda>loc. requestURI n env loc method hdrs) locations) (\<lambda>responses.
       let statuss = map (\<lambda>x. fst x) responses;
           headerss = map (\<lambda>x. fst (snd x)) responses;
           contentss = map (\<lambda>x. snd (snd x)) responses
       in ret (statuss, headerss, contentss))"

text \<open>The exported handler: a rejection goes to \<open>next\<close>.\<close>

definition exports_minify :: "nat \<Rightarrow> env \<Rightarrow> request \<Rightarrow> response \<Rightarrow> response io" where
  "exports_minify n env req res =
     bind (try_catch (minify n env req res)) (\<lambda>r.
       case r of Inl err \<Rightarrow> bind (emit (NextCalled err)) (\<lambda>_. ret res) | Inr res' \<Rightarrow> ret res')"

text \<open>The names for which \<open>statFile\<close> asks the filesystem: not the empty path, not
  \<open>/\<close>, and neither of the two synthesised files.\<close>

definition generic :: "string \<Rightarrow> bool" where
  "generic filename \<longleftrightarrow>
     filename \<noteq> [] \<and> filename \<noteq> ''/'' \<and> filename \<noteq> ''js/ace.js'' \<and> filename \<noteq> ''js/require-kernel.js''"

text \<open>
  When the compression of a script or stylesheet has failed: \<open>compressJS\<close> threw,
  resolved with an \<open>error\<close> field, or resolved with no \<open>code\<close> (reading it then
  throws inside the \<open>try\<close>); \<open>compressCSS\<close> rejected.
\<close>

fun js_failed :: "compress_result \<Rightarrow> bool" where
  "js_failed (CompressThrows e) = True"
| "js_failed (CompressResult err code) = (err \<or> code = None)"

definition compression_failed :: "env \<Rightarrow> string \<Rightarrow> string option \<Rightarrow> content \<Rightarrow> bool" where
  "compression_failed env filename contentType content \<longleftrightarrow>
     (contentType = Some ''application/javascript'' \<and> js_failed (compressJS env (content_toString content)))
     \<or> (contentType = Some ''text/css'' \<and> isl (compressCSS env filename (ROOT_DIR env)))"

text \<open>
  What the assembly of the bootstrap file is asked to append for one referenced path,
  given the status and the body of its fetch: for 404 the assignment of \<open>null\<close>, for
  200 the assignment of the body, for any other status nothing.
\<close>

definition embedded :: "string \<Rightarrow> nat \<Rightarrow> string \<Rightarrow> string" where
  "embedded filename st body =
     (if st = 404 then
        ''Ace2Editor.EMBEDED['' @ JSON_stringify (Some filename) @ ''] = null;'' @ [newline]
      else if st = 200 then
        ''Ace2Editor.EMBEDED['' @ JSON_stringify (Some filename) @ ''] = '' @
        JSON_stringify (Some body) @ '';'' @ [newline]
      else [])"

section \<open>Computations that only log\<close>

text \<open>A computation is a logger when its outcome does not depend on the world and all it
  does to the world is to append events to the trace.\<close>

definition logger :: "'a io \<Rightarrow> bool" where
  "logger m \<longleftrightarrow> (\<exists>out evs. \<forall>w. m w = (out, w\<lparr>trace := trace w @ evs\<rparr>))"

text \<open>A computation is stable when its outcome does not depend on the world.\<close>

definition stable :: "'a io \<Rightarrow> bool" where
  "stable m \<longleftrightarrow> (\<forall>w w'. fst (m w) = fst (m w'))"

text \<open>A request is unconditional when its header object holds no \<open>if-modified-since\<close>,
  as the fresh object \<open>{}\<close> of \<open>getAceFile\<close>. A fetcher is steady when the status and the
  body it answers an unconditional GET with depend on the URI only.\<close>

definition unconditional :: "world \<Rightarrow> ref \<Rightarrow> bool" where
  "unconditional w h \<longleftrightarrow> map_of (heap w h) ''if-modified-since'' = None"

definition steady :: "fetcher \<Rightarrow> bool" where
  "steady fetch \<longleftrightarrow>
     (\<forall>url h w h' w'. unconditional w h \<longrightarrow> unconditional w' h' \<longrightarrow>
        map_outcome (\<lambda>(s, h, b). (s, b)) (fst (fetch url ''GET'' h w)) =
        map_outcome (\<lambda>(s, h, b). (s, b)) (fst (fetch url ''GET'' h' w')))"

text \<open>What the promise of \<open>requestURI\<close> makes of the handler's run: status and body.\<close>

fun settle :: "response outcome \<Rightarrow> (nat \<times> string) outcome" where
  "settle (Return res) = (case resolved res of Some (s, h, b) \<Rightarrow> Return (s, b) | None \<Rightarrow> Pending)"
| "settle (Throw e) = Throw e"
| "settle Pending = Pending"

section \<open>An example installation\<close>

text \<open>
  A small installation on which the definitions can be run: the module lives in
  \<open>/opt/etherpad/src/node/utils\<close>, so the asset root is \<open>/opt/etherpad/src/static/\<close>.
  Its filesystem answers for the normalised path. A date string is the decimal number
  of seconds since the epoch. The callbacks of \<open>getAceFile\<close> finish in the reverse of
  the order in which they were started.
\<close>

definition ex_root :: string where
  "ex_root = ''/opt/etherpad/src/static''"

definition ex_stat :: "string \<Rightarrow> exn + stats" where
  "ex_stat p =
     (let q = path_normalize p in
      if q = ex_root then Inr \<lparr>mtime = 250, isFile = False\<rparr>
      else if q = ex_root @ ''/js'' then Inr \<lparr>mtime = 1000, isFile = False\<rparr>
      else if q = ex_root @ ''/css'' then Inr \<lparr>mtime = 2000, isFile = False\<rparr>
      else if q = ex_root @ ''/js/ace.js'' then Inr \<lparr>mtime = 1000, isFile = True\<rparr>
      else if q = ex_root @ ''/js/pad.js'' then Inr \<lparr>mtime = 3500, isFile = True\<rparr>
      else if q = ex_root @ ''/css/pad.css'' then Inr \<lparr>mtime = 2000, isFile = True\<rparr>
      else if q = ex_root @ ''/locked.js'' then Inl (SystemError ''EACCES'')
      else Inl (SystemError ''ENOENT''))"

definition ex_readdir :: "string \<Rightarrow> exn + string list" where
  "ex_readdir p =
     (let q = path_normalize p in
      if q = ex_root @ ''/js/'' then Inr [''ace.js'', ''pad.js'']
      else if q = ex_root @ ''/css/'' then Inr [''pad.css'']
      else Inl (SystemError ''ENOENT''))"

definition ex_ace_source :: string where
  "ex_ace_source =
     ''$$INCLUDE_JS('' @ [dquote] @ ''../static/js/gone.js'' @ [dquote] @ ''); '' @
     ''$$INCLUDE_CSS('' @ [squote] @ ''../static/css/pad.css'' @ [squote] @ '')''"

definition ex_readFile :: "string \<Rightarrow> exn + string" where
  "ex_readFile p =
     (let q = path_normalize p in
      if q = ex_root @ ''/js/ace.js'' then
        Inr ex_ace_source
      else if q = ex_root @ ''/js/pad.js'' then Inr ''var pad = 1;''
      else if q = ex_root @ ''/css/pad.css'' then Inr ''body { }''
      else Inl (SystemError ''ENOENT''))"

definition ex_mime :: "string \<Rightarrow> string option" where
  "ex_mime f =
     (if suffix ''.js'' f then Some ''application/javascript''
      else if suffix ''.css'' f then Some ''text/css''
      else None)"

definition ex_parseDate :: "string \<Rightarrow> int option" where
  "ex_parseDate s =
     (if s \<noteq> [] \<and> list_all (\<lambda>c. 48 \<le> (of_char c :: nat) \<and> (of_char c :: nat) \<le> 57) s
      then Some (1000 * int (foldl (\<lambda>n c. 10 * n + (of_char c - 48)) 0 s))
      else None)"

definition ex_toUTCString :: "int \<Rightarrow> string" where
  "ex_toUTCString t = string_of_int (t div 1000)"

definition ex_parseURL :: "string \<Rightarrow> (string \<times> string) option" where
  "ex_parseURL url =
     (if prefix ''http://invalid.invalid/'' url
      then Some (takeWhile (\<lambda>c. c \<noteq> CHR ''?'') (drop 22 url),
                 dropWhile (\<lambda>c. c \<noteq> CHR ''?'') (drop 22 url))
      else None)"

definition ex_env :: env where
  "ex_env = \<lparr>
     module_dirname = ''/opt/etherpad/src/node/utils'',
     cwd = ''/opt/etherpad'',
     fs_stat = ex_stat,
     fs_readdir = ex_readdir,
     fs_readFile = ex_readFile,
     plugins = (\<lambda>name. if name = ''ep_align''
                  then Some (Plugin (Some (Package (Some ''/opt/etherpad/node_modules/ep_align''))))
                  else None),
     settings_minify = True,
     settings_maxAge = Some 60,
     mime_lookup = ex_mime,
     compressJS = (\<lambda>code. if code = ''var pad = 1;'' then CompressResult False (Some ''var pad=1;'')
                            else CompressResult True None),
     compressCSS = (\<lambda>filename root. Inl (SystemError ''EMINIFY'')),
     kernelSource = ''function () {}'',
     requireLastModified = 9999,
     now = 100000,
     parseDate = ex_parseDate,
     toUTCString = ex_toUTCString,
     parseURL = ex_parseURL,
     finish_order = rev \<rparr>"

definition ex_world :: world where
  "ex_world = \<lparr>heap = (\<lambda>r. []), next_ref = 2, trace = []\<rparr>"

definition ex_request :: "string \<Rightarrow> string \<Rightarrow> request" where
  "ex_request method filename =
     \<lparr>req_url = ''/static/'' @ filename, req_method = method, req_filename = filename, req_headers = 0\<rparr>"

text \<open>The example world with the request headers \<open>hs\<close> in object 0.\<close>

definition ex_world_with :: "headers \<Rightarrow> world" where
  "ex_world_with hs = \<lparr>heap = (\<lambda>r. if r = 0 then hs else []), next_ref = 2, trace = []\<rparr>"

text \<open>The example installation after \<open>css/pad.css\<close> has been touched.\<close>

definition ex_env_touched :: env where
  "ex_env_touched = ex_env\<lparr>fs_stat := (\<lambda>p.
       if path_normalize p = ex_root @ ''/css/pad.css'' then Inr \<lparr>mtime = 5000, isFile = True\<rparr>
       else ex_stat p)\<rparr>"

text \<open>The example installation with a subdirectory \<open>js/pluginfw\<close> that holds one file,
  and the same after that file has been touched: the mtime of the file changes, the one
  of the directory does not.\<close>

definition ex_env_nested :: env where
  "ex_env_nested = ex_env\<lparr>
     fs_readdir := (\<lambda>p.
       if path_normalize p = ex_root @ ''/js/'' then Inr [''ace.js'', ''pad.js'', ''pluginfw'']
       else if path_normalize p = ex_root @ ''/js/pluginfw/'' then Inr [''plugin_defs.js'']
       else ex_readdir p),
     fs_stat := (\<lambda>p.
       if path_normalize p = ex_root @ ''/js/pluginfw'' then Inr \<lparr>mtime = 900, isFile = False\<rparr>
       else if path_normalize p = ex_root @ ''/js/pluginfw/plugin_defs.js''
         then Inr \<lparr>mtime = 700, isFile = True\<rparr>
       else ex_stat p)\<rparr>"

definition ex_env_nested_touched :: env where
  "ex_env_nested_touched = ex_env_nested\<lparr>fs_stat := (\<lambda>p.
       if path_normalize p = ex_root @ ''/js/pluginfw/plugin_defs.js''
         then Inr \<lparr>mtime = 9000, isFile = True\<rparr>
       else fs_stat ex_env_nested p)\<rparr>"

text \<open>A fetcher for trying out \<open>getAceFile\<close>: one path is missing, the loader shim
  fails with 500, everything else is served.\<close>

definition ex_fetch :: fetcher where
  "ex_fetch url method hdrs =
     (if url = ''http://invalid.invalid/static/js/gone.js'' then ret (404, hdrs, [])
      else if url = ''http://invalid.invalid/static/js/require-kernel.js'' then ret (500, hdrs, [])
      else ret (200, hdrs, ''ok''))"

text \<open>The example installation with a plugin registered under the name of a
  whitelisted library.\<close>

definition ex_env_async :: env where
  "ex_env_async = ex_env\<lparr>plugins := (\<lambda>name.
       if name = ''async'' then Some (Plugin (Some (Package (Some ''/srv/plugins/async''))))
       else plugins ex_env name)\<rparr>"

section \<open>Properties of the monad\<close>

lemma bind_ret: "bind (ret x) f = f x"
  by (simp add: bind_def ret_def)

lemma bind_throw: "bind (throw e) f = throw e"
  by (simp add: bind_def throw_def)

lemma bind_pending: "bind pending f = pending"
  by (simp add: bind_def pending_def)

lemma bind_Return: "m w = (Return x, w') \<Longrightarrow> bind m f w = f x w'"
  by (simp add: bind_def)

lemma bind_Throw: "m w = (Throw e, w') \<Longrightarrow> bind m f w = (Throw e, w')"
  by (simp add: bind_def)

lemma bind_Pending: "m w = (Pending, w') \<Longrightarrow> bind m f w = (Pending, w')"
  by (simp add: bind_def)

lemma loggerI: "(\<And>w. m w = (out, w\<lparr>trace := trace w @ evs\<rparr>)) \<Longrightarrow> logger m"
  unfolding logger_def by blast

lemma logger_ret: "logger (ret x)"
  by (rule loggerI [where evs = "[]"]) (simp add: ret_def)

lemma logger_throw: "logger (throw e)"
  by (rule loggerI [where evs = "[]"]) (simp add: throw_def)

lemma logger_emit: "logger (emit ev)"
  by (rule loggerI [where evs = "[ev]"]) (simp add: emit_def)

lemma logger_bind:
  assumes "logger m" and "\<And>x. logger (f x)"
  shows "logger (bind m f)"
proof -
  from assms(1) obtain out evs where m: "\<And>w. m w = (out, w\<lparr>trace := trace w @ evs\<rparr>)"
    unfolding logger_def by blast
  show ?thesis
  proof (cases out)
    case (Return x)
    from assms(2) [of x] obtain out' evs' where
      f: "\<And>w. f x w = (out', w\<lparr>trace := trace w @ evs'\<rparr>)"
      unfolding logger_def by blast
    show ?thesis
      by (rule loggerI [where out = out' and evs = "evs @ evs'"]) (simp add: bind_def m Return f)
  next
    case (Throw e)
    show ?thesis
      by (rule loggerI [where out = "Throw e" and evs = evs]) (simp add: bind_def m Throw)
  next
    case Pending
    show ?thesis
      by (rule loggerI [where out = Pending and evs = evs]) (simp add: bind_def m Pending)
  qed
qed

lemma logger_try_catch:
  assumes "logger m"
  shows "logger (try_catch m)"
proof -
  from assms obtain out evs where m: "\<And>w. m w = (out, w\<lparr>trace := trace w @ evs\<rparr>)"
    unfolding logger_def by blast
  show ?thesis
    by (cases out; rule loggerI [where evs = evs]; simp add: try_catch_def m)
qed

lemma logger_of_result: "logger (of_result r)"
  by (cases r) (simp_all add: of_result_def logger_ret logger_throw)

lemma logger_stat_io: "logger (stat_io env p)"
  by (simp add: stat_io_def logger_bind logger_emit logger_of_result)

lemma logger_readdir_io: "logger (readdir_io env p)"
  by (simp add: readdir_io_def logger_bind logger_emit logger_of_result)

lemma logger_foldM:
  assumes "\<And>s x. logger (f s x)"
  shows "logger (foldM f xs s)"
  by (induction xs arbitrary: s) (simp_all add: logger_ret logger_bind assms)

lemma logger_check_folder: "logger (check_folder env l p)"
  by (simp add: check_folder_def logger_bind logger_readdir_io logger_foldM logger_stat_io logger_ret)

lemma logger_lastModified: "logger (lastModifiedDateOfEverything env)"
  unfolding lastModifiedDateOfEverything_def by (rule logger_foldM) (rule logger_check_folder)

lemma logger_statFile: "logger (statFile env filename n)"
proof (induction n arbitrary: filename)
  case 0
  show ?case by (simp add: logger_ret)
next
  case (Suc n)
  show ?case
    by (auto simp: logger_ret logger_bind logger_lastModified logger_try_catch logger_stat_io
        logger_throw Suc split: sum.splits prod.splits intro!: logger_bind)
qed

lemma logger_rewrite: "logger (rewrite_plugin_path env f)"
  by (auto simp: rewrite_plugin_path_def Let_def logger_ret logger_emit logger_throw
      split: option.splits prod.splits plugin.splits package.splits intro!: logger_bind)

lemma logger_heap: "logger m \<Longrightarrow> heap (snd (m w)) = heap w"
  unfolding logger_def by auto

lemma logger_fst: "logger m \<Longrightarrow> fst (m w) = fst (m w')"
  unfolding logger_def by auto

section \<open>Root confinement\<close>

text \<open>
  C1, as the code has it. When the normalised absolute path, with every literal \<open>..\<close>
  deleted from it, does not begin with the asset root, the handler answers 404 with an
  empty body and leaves the world as it was: no stat, no read, no compression job, no
  header written.
\<close>

theorem traversal_rejected:
  assumes "\<not> prefix (ROOT_DIR env)
             (strip_dotdot (path_normalize (path_join [ROOT_DIR env, req_filename req])))"
  shows "minify (Suc n) env req (fresh_response r) w =
           (Return \<lparr>status = 404, res_headers = r, chunks = [], resolved = Some (404, r, [])\<rparr>, w)"
  using assms
  by (simp add: minify.simps minify_with_def locate_def confine_def Let_def res_writeHead_def
      res_end_def bind_def ret_def fresh_response_def)

theorem traversal_rejected_witness:
  "\<not> prefix (ROOT_DIR ex_env)
      (strip_dotdot (path_normalize (path_join
         [ROOT_DIR ex_env, req_filename (ex_request ''GET'' ''../../../../etc/passwd'')])))
   \<and> minify (Suc 0) ex_env (ex_request ''GET'' ''../../../../etc/passwd'') (fresh_response 1) ex_world =
       (Return \<lparr>status = 404, res_headers = 1, chunks = [], resolved = Some (404, 1, [])\<rparr>, ex_world)"
proof -
  have h: "\<not> prefix (ROOT_DIR ex_env)
      (strip_dotdot (path_normalize (path_join
         [ROOT_DIR ex_env, req_filename (ex_request ''GET'' ''../../../../etc/passwd'')])))"
    by code_simp
  show ?thesis using h traversal_rejected [OF h, of 0 1 ex_world] by blast
qed

text \<open>
  C1 as stated fails. The request \<open>../stat..ic/js/pad.js\<close> normalises to
  \<open>/opt/etherpad/src/stat..ic/js/pad.js\<close>, outside the root; deleting \<open>..\<close> turns it
  into a path under the root, and the handler stats, reads, compresses and serves
  \<open>js/pad.js\<close> with status 200.
\<close>

theorem escape_served_counterexample:
  "\<not> prefix (ROOT_DIR ex_env)
       (path_normalize (path_join [ROOT_DIR ex_env, ''../stat..ic/js/pad.js'']))
   \<and> fst (minify 2 ex_env (ex_request ''GET'' ''../stat..ic/js/pad.js'') (fresh_response 1) ex_world) =
       Return \<lparr>status = 200, res_headers = 1, chunks = [Str ''var pad=1;''],
               resolved = Some (200, 1, ''var pad=1;'')\<rparr>
   \<and> trace (snd (minify 2 ex_env (ex_request ''GET'' ''../stat..ic/js/pad.js'') (fresh_response 1) ex_world)) =
       [FsStat ''/opt/etherpad/src/static/js/pad.js'',
        FsReadFile ''/opt/etherpad/src/static/js/pad.js'',
        QueueCompressJS ''js/pad.js'',
        LoggerInfo ''Compress JS file js/pad.js.'']"
  by code_simp

section \<open>The stages of the handler\<close>

lemma lc_last_modified: "toLowerCase ''last-modified'' = ''last-modified''" by code_simp
lemma lc_date: "toLowerCase ''date'' = ''date''" by code_simp
lemma lc_expires: "toLowerCase ''expires'' = ''expires''" by code_simp
lemma lc_cache_control: "toLowerCase ''cache-control'' = ''cache-control''" by code_simp
lemma lc_content_type: "toLowerCase ''Content-Type'' = ''content-type''" by code_simp

lemma set_prop_apply:
  "set_prop r k v w = (Return (), w\<lparr>heap := (heap w)(r := AList.update k v (heap w r))\<rparr>)"
  by (simp add: set_prop_def)

lemma res_setHeader_apply:
  "res_setHeader k v res w =
     (Return res, w\<lparr>heap := (heap w)(res_headers res := AList.update (toLowerCase k) v (heap w (res_headers res)))\<rparr>)"
  by (simp add: res_setHeader_def set_prop_def bind_def ret_def)

lemma sfh_fst: "fst (set_freshness_headers env d res w) = Return res"
  by (simp add: set_freshness_headers_def res_setHeader_apply bind_def ret_def
      split: option.splits)

lemma sfh_trace: "trace (snd (set_freshness_headers env d res w)) = trace w"
  by (simp add: set_freshness_headers_def res_setHeader_apply bind_def ret_def
      split: option.splits)

lemma sfh_ims:
  "map_of (heap (snd (set_freshness_headers env d res w)) h) ''if-modified-since'' =
   map_of (heap w h) ''if-modified-since''"
  by (simp add: set_freshness_headers_def res_setHeader_apply bind_def ret_def
      lc_last_modified lc_date lc_expires lc_cache_control update_conv'
      split: option.splits)

lemma locate_run:
  assumes "confine env requested = Some c"
    and "rewrite_plugin_path env c w = (Return fn, w1)"
    and "statFile env fn 3 w1 = (Return (d0, ex), w2)"
  shows "locate env requested res w =
           (Return (Some (fn, map_option truncate_ms d0, ex, res)),
            snd (set_freshness_headers env (map_option truncate_ms d0) res w2))"
proof -
  obtain o3 w3 where s: "set_freshness_headers env (map_option truncate_ms d0) res w2 = (o3, w3)"
    by (cases "set_freshness_headers env (map_option truncate_ms d0) res w2")
  from sfh_fst [of env "map_option truncate_ms d0" res w2] s have "o3 = Return res" by simp
  with assms s show ?thesis
    by (simp add: locate_def bind_def ret_def Let_def)
qed

lemma locate_Some:
  assumes "locate env requested res w = (Return (Some (filename, date, exists, res')), w')"
  shows "\<exists>c w1 d0 w2. confine env requested = Some c
           \<and> rewrite_plugin_path env c w = (Return filename, w1)
           \<and> statFile env filename 3 w1 = (Return (d0, exists), w2)
           \<and> date = map_option truncate_ms d0 \<and> res' = res
           \<and> w' = snd (set_freshness_headers env date res w2)"
proof -
  from assms obtain c where c: "confine env requested = Some c"
    by (cases "confine env requested") (auto simp: locate_def ret_def)
  obtain o1 w1 where r: "rewrite_plugin_path env c w = (o1, w1)"
    by (cases "rewrite_plugin_path env c w")
  from assms c r obtain fn where o1: "o1 = Return fn"
    by (cases o1) (auto simp: locate_def bind_def)
  obtain o2 w2 where st: "statFile env fn 3 w1 = (o2, w2)"
    by (cases "statFile env fn 3 w1")
  from assms c r o1 st obtain d0 ex where o2: "o2 = Return (d0, ex)"
    by (cases o2) (auto simp: locate_def bind_def)
  from locate_run [OF c r [unfolded o1] st [unfolded o2], of res] assms
  show ?thesis using c r o1 st o2 by auto
qed

lemma locate_ims:
  assumes "locate env requested res w = (Return (Some (filename, date, exists, res')), w')"
  shows "map_of (heap w' h) ''if-modified-since'' = map_of (heap w h) ''if-modified-since''"
proof -
  from locate_Some [OF assms] obtain c w1 d0 w2 where
    r: "rewrite_plugin_path env c w = (Return filename, w1)" and
    st: "statFile env filename 3 w1 = (Return (d0, exists), w2)" and
    w': "w' = snd (set_freshness_headers env date res w2)"
    by blast
  have "heap w1 = heap w"
    using logger_heap [OF logger_rewrite, of env c w] r by simp
  moreover have "heap w2 = heap w1"
    using logger_heap [OF logger_statFile, of env filename 3 w1] st by simp
  ultimately show ?thesis by (simp add: w' sfh_ims)
qed

lemma truncate_ms_whole: "truncate_ms t mod 1000 = 0"
  by (simp add: truncate_ms_def)


lemma minify_located:
  assumes "locate env (req_filename req) res w = (Return (Some (filename, date, exists, res')), w')"
  shows "minify (Suc n) env req res w = respond (requestURI n env) env req filename date exists res' w'"
  using assms by (simp add: minify.simps minify_with_def requestURI_def bind_def)

lemma respond_304:
  assumes "date_ge (Option.bind (map_of (heap w (req_headers req)) ''if-modified-since'') (parseDate env)) date"
  shows "respond fetch env req filename date True (fresh_response r) w =
           (Return \<lparr>status = 304, res_headers = r, chunks = [], resolved = Some (304, r, [])\<rparr>, w)"
  using assms
  by (simp add: respond_def Let_def get_prop_def bind_def ret_def res_writeHead_def res_end_def
      fresh_response_def)

lemma respond_405:
  assumes "\<not> date_ge (Option.bind (map_of (heap w (req_headers req)) ''if-modified-since'') (parseDate env)) date"
    and "req_method req \<noteq> ''GET''" and "req_method req \<noteq> ''HEAD''"
  shows "respond fetch env req filename date True (fresh_response r) w =
           (Return \<lparr>status = 405, res_headers = r, chunks = [], resolved = Some (405, r, [])\<rparr>,
            w\<lparr>heap := (heap w)(r := AList.update ''allow'' ''HEAD, GET'' (heap w r))\<rparr>)"
  using assms
  by (simp add: respond_def Let_def get_prop_def bind_def ret_def res_writeHead_def res_end_def
      fresh_response_def set_prop_def)

lemma respond_GET_200:
  assumes "\<not> date_ge (Option.bind (map_of (heap w (req_headers req)) ''if-modified-since'') (parseDate env)) date"
    and "req_method req = ''GET''"
    and "getFileCompressed fetch env filename (mime_lookup env filename) w = (Return content, w')"
  shows "fst (respond fetch env req filename date True (fresh_response r) w) =
           Return \<lparr>status = 200, res_headers = r, chunks = (if truthy content then [content] else []),
                   resolved = Some (200, r, content_toString content)\<rparr>"
proof -
  have body: "\<not> truthy content \<Longrightarrow> content_toString content = []"
    by (cases content) auto
  from assms body show ?thesis
    by (simp add: respond_def Let_def get_prop_def bind_def ret_def res_writeHead_def res_end_def
      fresh_response_def res_header_def set_prop_def res_write_def)
qed

section \<open>Conditional requests and method dispatch\<close>

text \<open>
  C3. Let the resource of the request exist with last-modified time \<open>T\<close>, as
  \<open>locate\<close> reports it: \<open>T\<close> is a whole number of seconds. A GET whose
  \<open>if-modified-since\<close> parses to \<open>T\<close> is answered 304 with an empty body; a GET whose
  header parses to \<open>T - 1000\<close> (one second earlier) is answered 200, and its body is
  the content that \<open>getFileCompressed\<close> returns.
\<close>

theorem conditional_get:
  assumes "locate env (req_filename req) (fresh_response r) wa = (Return (Some (filename, Some T, True, resa)), wa')"
    and "locate env (req_filename req) (fresh_response r) wb = (Return (Some (filename, Some T, True, resb)), wb')"
    and "req_method req = ''GET''"
    and "Option.bind (map_of (heap wa (req_headers req)) ''if-modified-since'') (parseDate env) = Some T"
    and "Option.bind (map_of (heap wb (req_headers req)) ''if-modified-since'') (parseDate env) = Some (T - 1000)"
    and "getFileCompressed (requestURI n env) env filename (mime_lookup env filename) wb' = (Return content, wb'')"
  shows "T mod 1000 = 0
     \<and> fst (minify (Suc n) env req (fresh_response r) wa) =
         Return \<lparr>status = 304, res_headers = r, chunks = [], resolved = Some (304, r, [])\<rparr>
     \<and> fst (minify (Suc n) env req (fresh_response r) wb) =
         Return \<lparr>status = 200, res_headers = r, chunks = (if truthy content then [content] else []),
                 resolved = Some (200, r, content_toString content)\<rparr>"
proof -
  from locate_Some [OF assms(1)] obtain d0 where
    d0: "Some T = map_option truncate_ms d0" and ra: "resa = fresh_response r"
    by blast
  from d0 have T: "T mod 1000 = 0"
    by (cases d0) (auto simp: truncate_ms_whole)
  from locate_Some [OF assms(2)] have rb: "resb = fresh_response r" by auto
  have a: "date_ge (Option.bind (map_of (heap wa' (req_headers req)) ''if-modified-since'') (parseDate env)) (Some T)"
    by (simp add: locate_ims [OF assms(1)] assms(4))
  have b: "\<not> date_ge (Option.bind (map_of (heap wb' (req_headers req)) ''if-modified-since'') (parseDate env)) (Some T)"
    by (simp add: locate_ims [OF assms(2)] assms(5))
  show ?thesis
    using T respond_304 [OF a, of fetch] respond_GET_200 [OF b assms(3) assms(6)]
    by (simp add: minify_located [OF assms(1)] minify_located [OF assms(2)] ra rb respond_304 [OF a])
qed

text \<open>
  C9, as the code has it. A request with a method other than GET and HEAD for an
  existing resource is answered 405 with the header \<open>allow: HEAD, GET\<close> and an empty
  body, when its \<open>if-modified-since\<close> header is absent, does not parse, or parses to a
  time before the last-modified time of the resource.
\<close>

theorem method_not_allowed:
  assumes "locate env (req_filename req) (fresh_response r) w = (Return (Some (filename, date, True, res)), w')"
    and "req_method req \<noteq> ''GET''" and "req_method req \<noteq> ''HEAD''"
    and "\<not> date_ge (Option.bind (map_of (heap w (req_headers req)) ''if-modified-since'') (parseDate env)) date"
  shows "fst (minify (Suc n) env req (fresh_response r) w) =
           Return \<lparr>status = 405, res_headers = r, chunks = [], resolved = Some (405, r, [])\<rparr>
       \<and> map_of (heap (snd (minify (Suc n) env req (fresh_response r) w)) r) ''allow'' = Some ''HEAD, GET''"
proof -
  from locate_Some [OF assms(1)] have r: "res = fresh_response r" by auto
  have c: "\<not> date_ge (Option.bind (map_of (heap w' (req_headers req)) ''if-modified-since'') (parseDate env)) date"
    by (simp add: locate_ims [OF assms(1)] assms(4))
  show ?thesis
    by (simp add: minify_located [OF assms(1)] r respond_405 [OF c assms(2) assms(3)] update_conv')
qed


theorem conditional_get_witness:
  "locate ex_env (req_filename (ex_request ''GET'' ''js/pad.js'')) (fresh_response 1)
       (ex_world_with [(''if-modified-since'', ''3'')]) =
     (Return (Some (''js/pad.js'', Some 3000, True, fresh_response 1)),
      snd (locate ex_env ''js/pad.js'' (fresh_response 1) (ex_world_with [(''if-modified-since'', ''3'')])))
   \<and> locate ex_env (req_filename (ex_request ''GET'' ''js/pad.js'')) (fresh_response 1)
       (ex_world_with [(''if-modified-since'', ''2'')]) =
     (Return (Some (''js/pad.js'', Some 3000, True, fresh_response 1)),
      snd (locate ex_env ''js/pad.js'' (fresh_response 1) (ex_world_with [(''if-modified-since'', ''2'')])))
   \<and> req_method (ex_request ''GET'' ''js/pad.js'') = ''GET''
   \<and> Option.bind (map_of (heap (ex_world_with [(''if-modified-since'', ''3'')])
          (req_headers (ex_request ''GET'' ''js/pad.js''))) ''if-modified-since'') (parseDate ex_env) = Some 3000
   \<and> Option.bind (map_of (heap (ex_world_with [(''if-modified-since'', ''2'')])
          (req_headers (ex_request ''GET'' ''js/pad.js''))) ''if-modified-since'') (parseDate ex_env) = Some (3000 - 1000)
   \<and> fst (getFileCompressed (requestURI 1 ex_env) ex_env ''js/pad.js'' (mime_lookup ex_env ''js/pad.js'')
          (snd (locate ex_env ''js/pad.js'' (fresh_response 1) (ex_world_with [(''if-modified-since'', ''2'')])))) =
       Return (Str ''var pad=1;'')
   \<and> fst (minify (Suc 1) ex_env (ex_request ''GET'' ''js/pad.js'') (fresh_response 1)
          (ex_world_with [(''if-modified-since'', ''3'')])) =
       Return \<lparr>status = 304, res_headers = 1, chunks = [], resolved = Some (304, 1, [])\<rparr>
   \<and> fst (minify (Suc 1) ex_env (ex_request ''GET'' ''js/pad.js'') (fresh_response 1)
          (ex_world_with [(''if-modified-since'', ''2'')])) =
       Return \<lparr>status = 200, res_headers = 1, chunks = [Str ''var pad=1;''],
               resolved = Some (200, 1, ''var pad=1;'')\<rparr>"
proof -
  let ?req = "ex_request ''GET'' ''js/pad.js''"
  let ?wa = "ex_world_with [(''if-modified-since'', ''3'')]"
  let ?wb = "ex_world_with [(''if-modified-since'', ''2'')]"
  let ?wb' = "snd (locate ex_env ''js/pad.js'' (fresh_response 1) ?wb)"
  have fn: "req_filename ?req = ''js/pad.js''" by code_simp
  have "fst (locate ex_env ''js/pad.js'' (fresh_response 1) ?wa) =
          Return (Some (''js/pad.js'', Some 3000, True, fresh_response 1))"
    by code_simp
  then have la: "locate ex_env (req_filename ?req) (fresh_response 1) ?wa =
      (Return (Some (''js/pad.js'', Some 3000, True, fresh_response 1)),
       snd (locate ex_env ''js/pad.js'' (fresh_response 1) ?wa))"
    by (simp add: prod_eq_iff fn)
  have "fst (locate ex_env ''js/pad.js'' (fresh_response 1) ?wb) =
          Return (Some (''js/pad.js'', Some 3000, True, fresh_response 1))"
    by code_simp
  then have lb: "locate ex_env (req_filename ?req) (fresh_response 1) ?wb =
      (Return (Some (''js/pad.js'', Some 3000, True, fresh_response 1)), ?wb')"
    by (simp add: prod_eq_iff fn)
  have m: "req_method ?req = ''GET''" by code_simp
  have ha: "Option.bind (map_of (heap ?wa (req_headers ?req)) ''if-modified-since'') (parseDate ex_env) = Some 3000"
    by code_simp
  have hb: "Option.bind (map_of (heap ?wb (req_headers ?req)) ''if-modified-since'') (parseDate ex_env) = Some (3000 - 1000)"
    by code_simp
  have cf: "fst (getFileCompressed (requestURI 1 ex_env) ex_env ''js/pad.js'' (mime_lookup ex_env ''js/pad.js'') ?wb') =
       Return (Str ''var pad=1;'')"
    by code_simp
  then have c: "getFileCompressed (requestURI 1 ex_env) ex_env ''js/pad.js'' (mime_lookup ex_env ''js/pad.js'') ?wb' =
       (Return (Str ''var pad=1;''),
        snd (getFileCompressed (requestURI 1 ex_env) ex_env ''js/pad.js'' (mime_lookup ex_env ''js/pad.js'') ?wb'))"
    by (simp add: prod_eq_iff)
  from conditional_get [OF la lb m ha hb c]
  have r304: "fst (minify (Suc 1) ex_env ?req (fresh_response 1) ?wa) =
       Return \<lparr>status = 304, res_headers = 1, chunks = [], resolved = Some (304, 1, [])\<rparr>"
    and r200: "fst (minify (Suc 1) ex_env ?req (fresh_response 1) ?wb) =
       Return \<lparr>status = 200, res_headers = 1, chunks = [Str ''var pad=1;''],
               resolved = Some (200, 1, ''var pad=1;'')\<rparr>"
    by simp_all
  show ?thesis by (intro conjI la lb m ha hb cf r304 r200)
qed

theorem method_not_allowed_witness:
  "locate ex_env (req_filename (ex_request ''POST'' ''js/pad.js'')) (fresh_response 1) ex_world =
     (Return (Some (''js/pad.js'', Some 3000, True, fresh_response 1)),
      snd (locate ex_env ''js/pad.js'' (fresh_response 1) ex_world))
   \<and> req_method (ex_request ''POST'' ''js/pad.js'') \<noteq> ''GET''
   \<and> req_method (ex_request ''POST'' ''js/pad.js'') \<noteq> ''HEAD''
   \<and> \<not> date_ge (Option.bind (map_of (heap ex_world (req_headers (ex_request ''POST'' ''js/pad.js'')))
            ''if-modified-since'') (parseDate ex_env)) (Some 3000)
   \<and> fst (minify (Suc 1) ex_env (ex_request ''POST'' ''js/pad.js'') (fresh_response 1) ex_world) =
       Return \<lparr>status = 405, res_headers = 1, chunks = [], resolved = Some (405, 1, [])\<rparr>
   \<and> map_of (heap (snd (minify (Suc 1) ex_env (ex_request ''POST'' ''js/pad.js'') (fresh_response 1) ex_world)) 1)
        ''allow'' = Some ''HEAD, GET''"
proof -
  let ?req = "ex_request ''POST'' ''js/pad.js''"
  have fn: "req_filename ?req = ''js/pad.js''" by code_simp
  have "fst (locate ex_env ''js/pad.js'' (fresh_response 1) ex_world) =
          Return (Some (''js/pad.js'', Some 3000, True, fresh_response 1))"
    by code_simp
  then have l: "locate ex_env (req_filename ?req) (fresh_response 1) ex_world =
      (Return (Some (''js/pad.js'', Some 3000, True, fresh_response 1)),
       snd (locate ex_env ''js/pad.js'' (fresh_response 1) ex_world))"
    by (simp add: prod_eq_iff fn)
  have m1: "req_method ?req \<noteq> ''GET''" by code_simp
  have m2: "req_method ?req \<noteq> ''HEAD''" by code_simp
  have h: "\<not> date_ge (Option.bind (map_of (heap ex_world (req_headers ?req))
            ''if-modified-since'') (parseDate ex_env)) (Some 3000)"
    by code_simp
  from method_not_allowed [OF l m1 m2 h, of 1]
  have r405: "fst (minify (Suc 1) ex_env ?req (fresh_response 1) ex_world) =
       Return \<lparr>status = 405, res_headers = 1, chunks = [], resolved = Some (405, 1, [])\<rparr>"
    and allow: "map_of (heap (snd (minify (Suc 1) ex_env ?req (fresh_response 1) ex_world)) 1)
        ''allow'' = Some ''HEAD, GET''"
    by simp_all
  show ?thesis by (intro conjI l m1 m2 h r405 allow)
qed

text \<open>
  C9 as stated fails: the conditional check comes before the method dispatch.
  A POST for the existing \<open>js/pad.js\<close> whose \<open>if-modified-since\<close> equals the
  last-modified time is answered 304, and no \<open>allow\<close> header is written.
\<close>

theorem post_conditional_counterexample:
  "fst (locate ex_env ''js/pad.js'' (fresh_response 1) (ex_world_with [(''if-modified-since'', ''3'')])) =
       Return (Some (''js/pad.js'', Some 3000, True, fresh_response 1))
   \<and> fst (minify (Suc 1) ex_env (ex_request ''POST'' ''js/pad.js'') (fresh_response 1)
          (ex_world_with [(''if-modified-since'', ''3'')])) =
       Return \<lparr>status = 304, res_headers = 1, chunks = [], resolved = Some (304, 1, [])\<rparr>
   \<and> map_of (heap (snd (minify (Suc 1) ex_env (ex_request ''POST'' ''js/pad.js'') (fresh_response 1)
          (ex_world_with [(''if-modified-since'', ''3'')]))) 1) ''allow'' = None"
  by code_simp

section \<open>Freshness\<close>

lemma emit_apply: "emit ev w = (Return (), w\<lparr>trace := trace w @ [ev]\<rparr>)"
  by (simp add: emit_def)

lemma stat_io_Inl:
  "fs_stat env p = Inl e \<Longrightarrow> stat_io env p w = (Throw e, w\<lparr>trace := trace w @ [FsStat p]\<rparr>)"
  by (simp add: stat_io_def bind_def emit_def of_result_def throw_def)

lemma stat_io_Inr:
  "fs_stat env p = Inr st \<Longrightarrow> stat_io env p w = (Return st, w\<lparr>trace := trace w @ [FsStat p]\<rparr>)"
  by (simp add: stat_io_def bind_def emit_def of_result_def ret_def)



lemma statFile_error:
  assumes "generic filename" and "fs_stat env (ROOT_DIR env @ filename) = Inl err"
    and "code_of err \<noteq> Some ''ENOENT''"
  shows "statFile env filename (Suc n) w =
           (Throw err, w\<lparr>trace := trace w @ [FsStat (ROOT_DIR env @ filename)]\<rparr>)"
  using assms
  by (simp add: generic_def bind_def try_catch_def stat_io_Inl throw_def)




lemma locate_throw:
  assumes "confine env requested = Some c"
    and "rewrite_plugin_path env c w0 = (Return filename, w)"
    and "statFile env filename 3 w = (Throw e, w')"
  shows "locate env requested res w0 = (Throw e, w')"
  using assms by (simp add: locate_def bind_def)

text \<open>
  C10. A stat error other than \<open>ENOENT\<close> is thrown by \<open>statFile\<close> after the one
  stat, with no stat of the parent directory; \<open>minify\<close> rejects with the same error,
  and the exported handler passes it to \<open>next\<close>.
\<close>

theorem stat_error_propagates:
  assumes "generic filename"
    and "fs_stat env (ROOT_DIR env @ filename) = Inl err"
    and "code_of err \<noteq> Some ''ENOENT''"
    and "confine env (req_filename req) = Some c"
    and "rewrite_plugin_path env c w0 = (Return filename, w)"
  shows "statFile env filename (Suc k) w =
           (Throw err, w\<lparr>trace := trace w @ [FsStat (ROOT_DIR env @ filename)]\<rparr>)
     \<and> minify (Suc n) env req res w0 =
           (Throw err, w\<lparr>trace := trace w @ [FsStat (ROOT_DIR env @ filename)]\<rparr>)
     \<and> exports_minify (Suc n) env req res w0 =
           (Return res, w\<lparr>trace := trace w @ [FsStat (ROOT_DIR env @ filename), NextCalled err]\<rparr>)"
proof -
  have st: "statFile env filename j w =
      (Throw err, w\<lparr>trace := trace w @ [FsStat (ROOT_DIR env @ filename)]\<rparr>)" if "j = Suc i" for i j
    using statFile_error [OF assms(1-3)] that by simp
  have "statFile env filename 3 w =
      (Throw err, w\<lparr>trace := trace w @ [FsStat (ROOT_DIR env @ filename)]\<rparr>)"
    by (rule st [of 3 2]) simp
  from locate_throw [OF assms(4,5) this]
  have m: "minify (Suc n) env req res w0 =
      (Throw err, w\<lparr>trace := trace w @ [FsStat (ROOT_DIR env @ filename)]\<rparr>)"
    by (simp add: minify.simps minify_with_def bind_def)
  then have "exports_minify (Suc n) env req res w0 =
      (Return res, w\<lparr>trace := trace w @ [FsStat (ROOT_DIR env @ filename), NextCalled err]\<rparr>)"
    by (simp add: exports_minify_def bind_def try_catch_def emit_def ret_def)
  with m st [of "Suc k" k] show ?thesis by simp
qed

theorem stat_error_propagates_witness:
  "generic ''locked.js''
   \<and> fs_stat ex_env (ROOT_DIR ex_env @ ''locked.js'') = Inl (SystemError ''EACCES'')
   \<and> code_of (SystemError ''EACCES'') \<noteq> Some ''ENOENT''
   \<and> confine ex_env (req_filename (ex_request ''GET'' ''locked.js'')) = Some ''locked.js''
   \<and> rewrite_plugin_path ex_env ''locked.js'' ex_world = (Return ''locked.js'', ex_world)
   \<and> fst (statFile ex_env ''locked.js'' (Suc 2) ex_world) = Throw (SystemError ''EACCES'')
   \<and> fst (minify (Suc 1) ex_env (ex_request ''GET'' ''locked.js'') (fresh_response 1) ex_world) =
        Throw (SystemError ''EACCES'')
   \<and> trace (snd (exports_minify (Suc 1) ex_env (ex_request ''GET'' ''locked.js'') (fresh_response 1) ex_world)) =
        [FsStat (ROOT_DIR ex_env @ ''locked.js''), NextCalled (SystemError ''EACCES'')]"
proof -
  have g: "generic ''locked.js''" by (simp add: generic_def)
  have e: "fs_stat ex_env (ROOT_DIR ex_env @ ''locked.js'') = Inl (SystemError ''EACCES'')" by code_simp
  have c: "code_of (SystemError ''EACCES'') \<noteq> Some ''ENOENT''" by simp
  have f: "confine ex_env (req_filename (ex_request ''GET'' ''locked.js'')) = Some ''locked.js''" by code_simp
  have r: "rewrite_plugin_path ex_env ''locked.js'' ex_world = (Return ''locked.js'', ex_world)"
    by (simp add: rewrite_plugin_path_def match_plugin_path_def ret_def)
  from stat_error_propagates [OF g e c f r, of 2 1 "fresh_response 1"]
  have r1: "fst (statFile ex_env ''locked.js'' (Suc 2) ex_world) = Throw (SystemError ''EACCES'')"
    and r2: "fst (minify (Suc 1) ex_env (ex_request ''GET'' ''locked.js'') (fresh_response 1) ex_world) =
        Throw (SystemError ''EACCES'')"
    and r3: "trace (snd (exports_minify (Suc 1) ex_env (ex_request ''GET'' ''locked.js'') (fresh_response 1) ex_world)) =
        [FsStat (ROOT_DIR ex_env @ ''locked.js''), NextCalled (SystemError ''EACCES'')]"
    by (simp_all add: ex_world_def)
  show ?thesis by (intro conjI g e c f r r1 r2 r3)
qed

lemma later_fold_Some:
  "foldl later (Some l) sts = Some (Max (insert l (set (map mtime sts))))"
proof (induction sts arbitrary: l)
  case Nil
  show ?case by simp
next
  case (Cons st sts)
  have "later (Some l) st = Some (max l (mtime st))"
    by (simp add: later_def max_def)
  moreover have "Max (insert (max l (mtime st)) (set (map mtime sts))) =
      Max (insert l (set (map mtime (st # sts))))"
    by (cases "sts = []") (auto simp: max.commute max.left_commute)
  ultimately show ?case using Cons.IH [of "max l (mtime st)"] by simp
qed

lemma later_fold_None:
  "sts \<noteq> [] \<Longrightarrow> foldl later None sts = Some (Max (set (map mtime sts)))"
  by (cases sts) (simp_all add: later_fold_Some later_def)

lemma stat_entries:
  assumes "map (fs_stat env) (map (\<lambda>f. p @ ''/'' @ f) fs) = map Inr sts"
  shows "fst (foldM (\<lambda>latest filename.
            bind (stat_io env (p @ ''/'' @ filename)) (\<lambda>st. ret (later latest st))) fs l w) =
         Return (foldl later l sts)"
  using assms
proof (induction fs arbitrary: l w sts)
  case Nil
  then show ?case by (simp add: ret_def)
next
  case (Cons f fs)
  from Cons.prems obtain st sts' where sts: "sts = st # sts'"
    and st: "fs_stat env (p @ ''/'' @ f) = Inr st"
    and rest: "map (fs_stat env) (map (\<lambda>f. p @ ''/'' @ f) fs) = map Inr sts'"
    by (cases sts) auto
  show ?case
    using Cons.IH [OF rest] stat_io_Inr [OF st, of w] by (simp add: sts bind_def ret_def)
qed

lemma check_folder_run:
  assumes "fs_readdir env p = Inr files"
    and "map (fs_stat env) (map (\<lambda>f. p @ ''/'' @ f) (files @ [''.''])) = map Inr sts"
  shows "fst (check_folder env l p w) = Return (foldl later l sts)"
  using assms(1) stat_entries [OF assms(2)]
  by (simp add: check_folder_def readdir_io_def bind_def emit_def of_result_def ret_def)

lemma lastModified_run:
  assumes "fs_readdir env (ROOT_DIR env @ ''js/'') = Inr js_files"
    and "fs_readdir env (ROOT_DIR env @ ''css/'') = Inr css_files"
    and "map (fs_stat env) (map (\<lambda>f. (ROOT_DIR env @ ''js/'') @ ''/'' @ f) (js_files @ [''.''])) = map Inr js_stats"
    and "map (fs_stat env) (map (\<lambda>f. (ROOT_DIR env @ ''css/'') @ ''/'' @ f) (css_files @ [''.''])) = map Inr css_stats"
  shows "fst (lastModifiedDateOfEverything env w) = Return (Some (Max (set (map mtime (js_stats @ css_stats)))))"
proof -
  obtain o1 w1 where c1: "check_folder env None (ROOT_DIR env @ ''js/'') w = (o1, w1)"
    by (cases "check_folder env None (ROOT_DIR env @ ''js/'') w")
  with check_folder_run [OF assms(1,3), of None w] have o1: "o1 = Return (foldl later None js_stats)"
    by simp
  from assms(3) have ne: "js_stats \<noteq> []" by auto
  obtain o2 w2 where c2: "check_folder env (foldl later None js_stats) (ROOT_DIR env @ ''css/'') w1 = (o2, w2)"
    by (cases "check_folder env (foldl later None js_stats) (ROOT_DIR env @ ''css/'') w1")
  with check_folder_run [OF assms(2,4), of "foldl later None js_stats" w1]
  have o2: "o2 = Return (foldl later (foldl later None js_stats) css_stats)"
    by simp
  have "fst (lastModifiedDateOfEverything env w) = Return (foldl later (foldl later None js_stats) css_stats)"
    by (simp add: lastModifiedDateOfEverything_def bind_def c1 o1 c2 o2 ret_def)
  also have "foldl later (foldl later None js_stats) css_stats = foldl later None (js_stats @ css_stats)"
    by simp
  also have "\<dots> = Some (Max (set (map mtime (js_stats @ css_stats))))"
    using ne by (intro later_fold_None) simp
  finally show ?thesis .
qed


lemma statFile_ace:
  assumes "fst (lastModifiedDateOfEverything env w) = Return d"
  shows "fst (statFile env ''js/ace.js'' (Suc n) w) = Return (d, True)"
proof -
  obtain o1 w1 where l: "lastModifiedDateOfEverything env w = (o1, w1)"
    by (cases "lastModifiedDateOfEverything env w")
  with assms have "o1 = Return d" by simp
  with l show ?thesis by (simp add: bind_def ret_def)
qed

lemma Max_touched:
  assumes "i < length xs" and "\<forall>x\<in>set xs. mtime x < mtime t"
  shows "Max (set (map mtime (xs[i := t]))) = mtime t"
proof (rule Max_eqI)
  show "finite (set (map mtime (xs[i := t])))" by simp
  show "mtime t \<in> set (map mtime (xs[i := t]))"
    using assms(1) by (auto intro: set_update_memI)
  fix y
  assume "y \<in> set (map mtime (xs[i := t]))"
  then obtain x where "x \<in> set (xs[i := t])" and y: "y = mtime x" by auto
  then have "x = t \<or> x \<in> set xs"
    using set_update_subset_insert [of xs i t] by auto
  with assms(2) y show "y \<le> mtime t" by auto
qed

text \<open>
  C5, as the code has it. For \<open>js/ace.js\<close>, \<open>statFile\<close> reports \<open>exists = True\<close> and the
  maximum mtime over the entries that \<open>readdir\<close> lists for the script and the style
  directory, and the two directories themselves. When one of these entries is touched,
  that is, gets an mtime later than all of them had, the aggregate becomes that mtime
  and so advances.
\<close>

theorem aggregate_freshness:
  assumes "fs_readdir env (ROOT_DIR env @ ''js/'') = Inr js_files"
    and "fs_readdir env (ROOT_DIR env @ ''css/'') = Inr css_files"
    and "map (fs_stat env) (map (\<lambda>f. (ROOT_DIR env @ ''js/'') @ ''/'' @ f) (js_files @ [''.''])) = map Inr js_stats"
    and "map (fs_stat env) (map (\<lambda>f. (ROOT_DIR env @ ''css/'') @ ''/'' @ f) (css_files @ [''.''])) = map Inr css_stats"
    and "fs_readdir env' (ROOT_DIR env' @ ''js/'') = Inr js_files"
    and "fs_readdir env' (ROOT_DIR env' @ ''css/'') = Inr css_files"
    and "map (fs_stat env') (map (\<lambda>f. (ROOT_DIR env' @ ''js/'') @ ''/'' @ f) (js_files @ [''.''])) = map Inr js_stats'"
    and "map (fs_stat env') (map (\<lambda>f. (ROOT_DIR env' @ ''css/'') @ ''/'' @ f) (css_files @ [''.''])) = map Inr css_stats'"
    and "i < length (js_stats @ css_stats)"
    and "js_stats' @ css_stats' = (js_stats @ css_stats)[i := touched]"
    and "list_all (\<lambda>st. mtime st < mtime touched) (js_stats @ css_stats)"
  shows "fst (statFile env ''js/ace.js'' (Suc n) w) =
           Return (Some (Max (set (map mtime (js_stats @ css_stats)))), True)
     \<and> fst (statFile env' ''js/ace.js'' (Suc n) w') = Return (Some (mtime touched), True)
     \<and> Max (set (map mtime (js_stats @ css_stats))) < mtime touched"
proof -
  have a: "fst (statFile env ''js/ace.js'' (Suc n) w) =
           Return (Some (Max (set (map mtime (js_stats @ css_stats)))), True)"
    by (rule statFile_ace) (rule lastModified_run [OF assms(1-4)])
  have lt: "\<forall>st\<in>set (js_stats @ css_stats). mtime st < mtime touched"
    using assms(11) by (simp only: list_all_iff)
  have "fst (statFile env' ''js/ace.js'' (Suc n) w') =
           Return (Some (Max (set (map mtime (js_stats' @ css_stats')))), True)"
    by (rule statFile_ace) (rule lastModified_run [OF assms(5-8)])
  then have b: "fst (statFile env' ''js/ace.js'' (Suc n) w') = Return (Some (mtime touched), True)"
    by (simp only: assms(10) Max_touched [OF assms(9) lt])
  from assms(3) have "js_stats \<noteq> []" by auto
  then have "Max (set (map mtime (js_stats @ css_stats))) \<in> set (map mtime (js_stats @ css_stats))"
    by (intro Max_in) auto
  with lt have c: "Max (set (map mtime (js_stats @ css_stats))) < mtime touched" by auto
  from a b c show ?thesis by blast
qed

theorem aggregate_freshness_witness:
  "fs_readdir ex_env (ROOT_DIR ex_env @ ''js/'') = Inr [''ace.js'', ''pad.js'']
   \<and> fs_readdir ex_env (ROOT_DIR ex_env @ ''css/'') = Inr [''pad.css'']
   \<and> map (fs_stat ex_env) (map (\<lambda>f. (ROOT_DIR ex_env @ ''js/'') @ ''/'' @ f) ([''ace.js'', ''pad.js''] @ [''.''])) =
       map Inr [\<lparr>mtime = 1000, isFile = True\<rparr>, \<lparr>mtime = 3500, isFile = True\<rparr>, \<lparr>mtime = 1000, isFile = False\<rparr>]
   \<and> map (fs_stat ex_env) (map (\<lambda>f. (ROOT_DIR ex_env @ ''css/'') @ ''/'' @ f) ([''pad.css''] @ [''.''])) =
       map Inr [\<lparr>mtime = 2000, isFile = True\<rparr>, \<lparr>mtime = 2000, isFile = False\<rparr>]
   \<and> fs_readdir ex_env_touched (ROOT_DIR ex_env_touched @ ''js/'') = Inr [''ace.js'', ''pad.js'']
   \<and> fs_readdir ex_env_touched (ROOT_DIR ex_env_touched @ ''css/'') = Inr [''pad.css'']
   \<and> map (fs_stat ex_env_touched) (map (\<lambda>f. (ROOT_DIR ex_env_touched @ ''js/'') @ ''/'' @ f) ([''ace.js'', ''pad.js''] @ [''.''])) =
       map Inr [\<lparr>mtime = 1000, isFile = True\<rparr>, \<lparr>mtime = 3500, isFile = True\<rparr>, \<lparr>mtime = 1000, isFile = False\<rparr>]
   \<and> map (fs_stat ex_env_touched) (map (\<lambda>f. (ROOT_DIR ex_env_touched @ ''css/'') @ ''/'' @ f) ([''pad.css''] @ [''.''])) =
       map Inr [\<lparr>mtime = 5000, isFile = True\<rparr>, \<lparr>mtime = 2000, isFile = False\<rparr>]
   \<and> list_all (\<lambda>st. mtime st < mtime \<lparr>mtime = 5000, isFile = True\<rparr>)
         ([\<lparr>mtime = 1000, isFile = True\<rparr>, \<lparr>mtime = 3500, isFile = True\<rparr>, \<lparr>mtime = 1000, isFile = False\<rparr>] @
          [\<lparr>mtime = 2000, isFile = True\<rparr>, \<lparr>mtime = 2000, isFile = False\<rparr>])
   \<and> fst (statFile ex_env ''js/ace.js'' (Suc 2) ex_world) = Return (Some 3500, True)
   \<and> fst (statFile ex_env_touched ''js/ace.js'' (Suc 2) ex_world) = Return (Some 5000, True)"
proof -
  let ?js = "[\<lparr>mtime = 1000, isFile = True\<rparr>, \<lparr>mtime = 3500, isFile = True\<rparr>, \<lparr>mtime = 1000, isFile = False\<rparr>]"
  let ?css = "[\<lparr>mtime = 2000, isFile = True\<rparr>, \<lparr>mtime = 2000, isFile = False\<rparr>]"
  let ?css' = "[\<lparr>mtime = 5000, isFile = True\<rparr>, \<lparr>mtime = 2000, isFile = False\<rparr>]"
  let ?t = "\<lparr>mtime = 5000, isFile = True\<rparr>"
  have a1: "fs_readdir ex_env (ROOT_DIR ex_env @ ''js/'') = Inr [''ace.js'', ''pad.js'']" by code_simp
  have a2: "fs_readdir ex_env (ROOT_DIR ex_env @ ''css/'') = Inr [''pad.css'']" by code_simp
  have a3: "map (fs_stat ex_env) (map (\<lambda>f. (ROOT_DIR ex_env @ ''js/'') @ ''/'' @ f) ([''ace.js'', ''pad.js''] @ [''.''])) = map Inr ?js"
    by code_simp
  have a4: "map (fs_stat ex_env) (map (\<lambda>f. (ROOT_DIR ex_env @ ''css/'') @ ''/'' @ f) ([''pad.css''] @ [''.''])) = map Inr ?css"
    by code_simp
  have b1: "fs_readdir ex_env_touched (ROOT_DIR ex_env_touched @ ''js/'') = Inr [''ace.js'', ''pad.js'']" by code_simp
  have b2: "fs_readdir ex_env_touched (ROOT_DIR ex_env_touched @ ''css/'') = Inr [''pad.css'']" by code_simp
  have b3: "map (fs_stat ex_env_touched) (map (\<lambda>f. (ROOT_DIR ex_env_touched @ ''js/'') @ ''/'' @ f) ([''ace.js'', ''pad.js''] @ [''.''])) = map Inr ?js"
    by code_simp
  have b4: "map (fs_stat ex_env_touched) (map (\<lambda>f. (ROOT_DIR ex_env_touched @ ''css/'') @ ''/'' @ f) ([''pad.css''] @ [''.''])) = map Inr ?css'"
    by code_simp
  have i: "3 < length (?js @ ?css)" by simp
  have u: "?js @ ?css' = (?js @ ?css)[3 := ?t]" by (simp add: numeral_3_eq_3)
  have lt: "list_all (\<lambda>st. mtime st < mtime ?t) (?js @ ?css)" by simp
  from aggregate_freshness [OF a1 a2 a3 a4 b1 b2 b3 b4 i u lt, of 2 ex_world ex_world]
  have r1: "fst (statFile ex_env ''js/ace.js'' (Suc 2) ex_world) = Return (Some 3500, True)"
    and r2: "fst (statFile ex_env_touched ''js/ace.js'' (Suc 2) ex_world) = Return (Some 5000, True)"
    by simp_all
  show ?thesis by (intro conjI a1 a2 a3 a4 b1 b2 b3 b4 lt r1 r2)
qed

text \<open>
  C5 as stated fails: not every file of the two trees counts. The walk of lines 254 to
  270 reads the two directories and stats their entries, one level deep. A file in a
  subdirectory is never looked at, so touching it leaves the aggregate where it was.
\<close>

theorem nested_file_touched_counterexample:
  "fs_readdir ex_env_nested (ROOT_DIR ex_env_nested @ ''js/'') = Inr [''ace.js'', ''pad.js'', ''pluginfw'']
   \<and> fs_stat ex_env_nested (ROOT_DIR ex_env_nested @ ''js/pluginfw/plugin_defs.js'') =
        Inr \<lparr>mtime = 700, isFile = True\<rparr>
   \<and> fs_stat ex_env_nested_touched (ROOT_DIR ex_env_nested_touched @ ''js/pluginfw/plugin_defs.js'') =
        Inr \<lparr>mtime = 9000, isFile = True\<rparr>
   \<and> fst (statFile ex_env_nested ''js/ace.js'' 3 ex_world) = Return (Some 3500, True)
   \<and> fst (statFile ex_env_nested_touched ''js/ace.js'' 3 ex_world) = Return (Some 3500, True)
   \<and> trace (snd (statFile ex_env_nested_touched ''js/ace.js'' 3 ex_world)) =
        [FsReaddir ''/opt/etherpad/src/static/js/'',
         FsStat ''/opt/etherpad/src/static/js//ace.js'',
         FsStat ''/opt/etherpad/src/static/js//pad.js'',
         FsStat ''/opt/etherpad/src/static/js//pluginfw'',
         FsStat ''/opt/etherpad/src/static/js//.'',
         FsReaddir ''/opt/etherpad/src/static/css/'',
         FsStat ''/opt/etherpad/src/static/css//pad.css'',
         FsStat ''/opt/etherpad/src/static/css//.'']"
  by code_simp

text \<open>In general: two installations that agree on the listings of the two directories
  and on the stats of the listed entries have the same aggregate, whatever else differs
  below.\<close>

lemma aggregate_one_level:
  assumes "fs_readdir env (ROOT_DIR env @ ''js/'') = Inr js_files"
    and "fs_readdir env (ROOT_DIR env @ ''css/'') = Inr css_files"
    and "map (fs_stat env) (map (\<lambda>f. (ROOT_DIR env @ ''js/'') @ ''/'' @ f) (js_files @ [''.''])) = map Inr js_stats"
    and "map (fs_stat env) (map (\<lambda>f. (ROOT_DIR env @ ''css/'') @ ''/'' @ f) (css_files @ [''.''])) = map Inr css_stats"
    and "fs_readdir env' (ROOT_DIR env' @ ''js/'') = Inr js_files"
    and "fs_readdir env' (ROOT_DIR env' @ ''css/'') = Inr css_files"
    and "map (fs_stat env') (map (\<lambda>f. (ROOT_DIR env' @ ''js/'') @ ''/'' @ f) (js_files @ [''.''])) = map Inr js_stats"
    and "map (fs_stat env') (map (\<lambda>f. (ROOT_DIR env' @ ''css/'') @ ''/'' @ f) (css_files @ [''.''])) = map Inr css_stats"
  shows "fst (statFile env' ''js/ace.js'' (Suc n) w') = fst (statFile env ''js/ace.js'' (Suc n) w)"
  using statFile_ace [OF lastModified_run [OF assms(1-4)], of n w]
    statFile_ace [OF lastModified_run [OF assms(5-8)], of n w']
  by simp

section \<open>Compression failures\<close>

lemma content_toString_Str: "content_toString (Str (content_toString c)) = content_toString c"
  by simp

lemma getFileCompressed_failed:
  assumes "getFile fetch env filename w = (Return content, w1)"
    and "compression_failed env filename contentType content"
  shows "\<exists>c w2. getFileCompressed fetch env filename contentType w = (Return c, w2)
           \<and> content_toString c = content_toString content"
proof (cases "\<not> truthy content \<or> \<not> settings_minify env")
  case True
  with assms(1) show ?thesis
    by (auto simp: getFileCompressed_def bind_def ret_def)
next
  case False
  from assms(2) show ?thesis
    unfolding compression_failed_def
  proof (elim disjE conjE)
    assume ct: "contentType = Some ''application/javascript''"
      and f: "js_failed (compressJS env (content_toString content))"
    show ?thesis
    proof (cases "compressJS env (content_toString content)")
      case (CompressThrows e)
      with assms(1) False ct show ?thesis
        by (simp add: getFileCompressed_def bind_def ret_def emit_def)
    next
      case (CompressResult err code)
      with f assms(1) False ct show ?thesis
        by (cases err; cases code; simp add: getFileCompressed_def bind_def ret_def emit_def)
    qed
  next
    assume ct: "contentType = Some ''text/css''"
      and f: "isl (compressCSS env filename (ROOT_DIR env))"
    then obtain e where "compressCSS env filename (ROOT_DIR env) = Inl e"
      by (cases "compressCSS env filename (ROOT_DIR env)") auto
    with assms(1) False ct show ?thesis
      by (simp add: getFileCompressed_def bind_def ret_def emit_def)
  qed
qed


text \<open>
  C6. For a GET of an existing script or stylesheet that is not answered 304, when the
  compression fails, \<open>getFileCompressed\<close> returns the bytes that \<open>getFile\<close> read and
  the request completes with status 200 and these bytes as its body.
\<close>

theorem compression_failure_serves_original:
  assumes "locate env (req_filename req) (fresh_response r) w = (Return (Some (filename, date, True, res)), w')"
    and "req_method req = ''GET''"
    and "\<not> date_ge (Option.bind (map_of (heap w (req_headers req)) ''if-modified-since'') (parseDate env)) date"
    and "getFile (requestURI n env) env filename w' = (Return content, w'')"
    and "compression_failed env filename (mime_lookup env filename) content"
  shows "map_outcome content_toString
           (fst (getFileCompressed (requestURI n env) env filename (mime_lookup env filename) w')) =
         Return (content_toString content)
     \<and> map_outcome resolved (fst (minify (Suc n) env req (fresh_response r) w)) =
         Return (Some (200, r, content_toString content))"
proof -
  from getFileCompressed_failed [OF assms(4,5)] obtain c w2 where
    g: "getFileCompressed (requestURI n env) env filename (mime_lookup env filename) w' = (Return c, w2)"
    and c: "content_toString c = content_toString content"
    by blast
  from locate_Some [OF assms(1)] have r: "res = fresh_response r" by auto
  have h: "\<not> date_ge (Option.bind (map_of (heap w' (req_headers req)) ''if-modified-since'') (parseDate env)) date"
    by (simp add: locate_ims [OF assms(1)] assms(3))
  from respond_GET_200 [OF h assms(2) g, of r]
  show ?thesis
    by (simp add: minify_located [OF assms(1)] r g c)
qed

theorem compression_failure_serves_original_witness:
  "locate ex_env (req_filename (ex_request ''GET'' ''css/pad.css'')) (fresh_response 1) ex_world =
     (Return (Some (''css/pad.css'', Some 2000, True, fresh_response 1)),
      snd (locate ex_env ''css/pad.css'' (fresh_response 1) ex_world))
   \<and> req_method (ex_request ''GET'' ''css/pad.css'') = ''GET''
   \<and> \<not> date_ge (Option.bind (map_of (heap ex_world (req_headers (ex_request ''GET'' ''css/pad.css'')))
            ''if-modified-since'') (parseDate ex_env)) (Some 2000)
   \<and> fst (getFile (requestURI 1 ex_env) ex_env ''css/pad.css''
            (snd (locate ex_env ''css/pad.css'' (fresh_response 1) ex_world))) = Return (Buffer ''body { }'')
   \<and> compression_failed ex_env ''css/pad.css'' (mime_lookup ex_env ''css/pad.css'') (Buffer ''body { }'')
   \<and> map_outcome content_toString
           (fst (getFileCompressed (requestURI 1 ex_env) ex_env ''css/pad.css'' (mime_lookup ex_env ''css/pad.css'')
              (snd (locate ex_env ''css/pad.css'' (fresh_response 1) ex_world)))) =
         Return ''body { }''
   \<and> map_outcome resolved (fst (minify (Suc 1) ex_env (ex_request ''GET'' ''css/pad.css'') (fresh_response 1) ex_world)) =
         Return (Some (200, 1, ''body { }''))"
proof -
  let ?req = "ex_request ''GET'' ''css/pad.css''"
  let ?w' = "snd (locate ex_env ''css/pad.css'' (fresh_response 1) ex_world)"
  have fn: "req_filename ?req = ''css/pad.css''" by code_simp
  have "fst (locate ex_env ''css/pad.css'' (fresh_response 1) ex_world) =
          Return (Some (''css/pad.css'', Some 2000, True, fresh_response 1))"
    by code_simp
  then have l: "locate ex_env (req_filename ?req) (fresh_response 1) ex_world =
      (Return (Some (''css/pad.css'', Some 2000, True, fresh_response 1)), ?w')"
    by (simp add: prod_eq_iff fn)
  have m: "req_method ?req = ''GET''" by code_simp
  have h: "\<not> date_ge (Option.bind (map_of (heap ex_world (req_headers ?req))
            ''if-modified-since'') (parseDate ex_env)) (Some 2000)"
    by code_simp
  have gf: "fst (getFile (requestURI 1 ex_env) ex_env ''css/pad.css'' ?w') = Return (Buffer ''body { }'')"
    by code_simp
  then have g: "getFile (requestURI 1 ex_env) ex_env ''css/pad.css'' ?w' =
      (Return (Buffer ''body { }''), snd (getFile (requestURI 1 ex_env) ex_env ''css/pad.css'' ?w'))"
    by (simp add: prod_eq_iff)
  have f: "compression_failed ex_env ''css/pad.css'' (mime_lookup ex_env ''css/pad.css'') (Buffer ''body { }'')"
    unfolding compression_failed_def by code_simp
  from compression_failure_serves_original [OF l m h g f]
  have r1: "map_outcome content_toString
           (fst (getFileCompressed (requestURI 1 ex_env) ex_env ''css/pad.css'' (mime_lookup ex_env ''css/pad.css'') ?w')) =
         Return ''body { }''"
    and r2: "map_outcome resolved (fst (minify (Suc 1) ex_env ?req (fresh_response 1) ex_world)) =
         Return (Some (200, 1, ''body { }''))"
    by simp_all
  show ?thesis by (intro conjI l m h gf f r1 r2)
qed

lemma compression_failure_script_example:
  "compression_failed ex_env ''js/require-kernel.js'' (mime_lookup ex_env ''js/require-kernel.js'')
      (Str (requireDefinition ex_env))
   \<and> map_outcome resolved (fst (minify (Suc 1) ex_env (ex_request ''GET'' ''js/require-kernel.js'')
        (fresh_response 1) ex_world)) =
       Return (Some (200, 1, requireDefinition ex_env))"
  unfolding compression_failed_def by code_simp

section \<open>Header objects in a batch of fetches\<close>

text \<open>Whatever the handler does, the promise of \<open>requestURI\<close> resolves with the header
  object it was given; so every entry of \<open>headerss\<close> is the one object of the batch.\<close>

lemma respond_resolves:
  assumes "respond fetch env req filename date exists (fresh_response h) w = (Return res', w')"
  shows "\<exists>s b. resolved res' = Some (s, h, b)"
  using assms
  by (auto simp: respond_def Let_def get_prop_def bind_def ret_def res_writeHead_def res_end_def
      fresh_response_def res_header_def set_prop_def res_write_def
      split: if_splits prod.splits outcome.splits)

lemma minify_resolves:
  assumes "minify n env req (fresh_response h) w = (Return res', w')"
  shows "\<exists>s b. resolved res' = Some (s, h, b)"
proof (cases n)
  case 0
  with assms show ?thesis by (simp add: minify.simps pending_def)
next
  case (Suc k)
  obtain lo w1 where l: "locate env (req_filename req) (fresh_response h) w = (lo, w1)"
    by (cases "locate env (req_filename req) (fresh_response h) w")
  from assms Suc l obtain located where lo: "lo = Return located"
    by (cases lo) (auto simp: minify.simps minify_with_def bind_def)
  show ?thesis
  proof (cases located)
    case None
    with assms Suc l lo show ?thesis
      by (auto simp: minify.simps minify_with_def bind_def ret_def res_writeHead_def res_end_def
          fresh_response_def)
  next
    case (Some t)
    obtain fn d e r where t: "t = (fn, d, e, r)" by (cases t) auto
    from locate_Some [OF l [unfolded lo Some t]] have r: "r = fresh_response h" by auto
    from assms have "respond (requestURI k env) env req fn d e (fresh_response h) w1 = (Return res', w')"
      by (simp add: Suc minify_located [OF l [unfolded lo Some t]] r)
    then show ?thesis by (rule respond_resolves)
  qed
qed

lemma requestURI_same_object:
  assumes "requestURI n env url method h w = (Return (s, h', b), w')"
  shows "h' = h"
proof -
  from assms obtain pathname search where p: "parseURL env url = Some (pathname, search)"
    by (cases "parseURL env url") (auto simp: requestURI_def requestURI_with_def throw_def)
  let ?req = "\<lparr>req_url = url, req_method = method,
                 req_filename = strip_static (pathname @ search), req_headers = h\<rparr>"
  obtain out w1 where m: "minify n env ?req (fresh_response h) w = (out, w1)"
    by (cases "minify n env ?req (fresh_response h) w")
  from assms p m obtain res' where out: "out = Return res'"
    by (cases out) (auto simp: requestURI_def requestURI_with_def Let_def bind_def)
  from minify_resolves [OF m [unfolded out]] obtain s0 b0 where "resolved res' = Some (s0, h, b0)"
    by blast
  with assms p m out show ?thesis
    by (simp add: requestURI_def requestURI_with_def Let_def bind_def ret_def)
qed

lemma mapM_same_object:
  assumes "mapM (\<lambda>loc. requestURI n env loc method h) locations w = (Return responses, w')"
  shows "map (\<lambda>x. fst (snd x)) responses = replicate (length locations) h"
  using assms
proof (induction locations arbitrary: responses w w')
  case Nil
  then show ?case by (simp add: ret_def)
next
  case (Cons loc locs)
  obtain o1 w1 where f: "requestURI n env loc method h w = (o1, w1)"
    by (cases "requestURI n env loc method h w")
  from Cons.prems f obtain y where o1: "o1 = Return y"
    by (cases o1) (auto simp: bind_def)
  obtain o2 w2 where r: "mapM (\<lambda>loc. requestURI n env loc method h) locs w1 = (o2, w2)"
    by (cases "mapM (\<lambda>loc. requestURI n env loc method h) locs w1")
  from Cons.prems f o1 r obtain ys where o2: "o2 = Return ys"
    by (cases o2) (auto simp: bind_def)
  from Cons.prems f o1 r o2 have resp: "responses = y # ys"
    by (simp add: bind_def ret_def)
  obtain s h' b where y: "y = (s, h', b)" by (cases y) auto
  from requestURI_same_object [OF f [unfolded o1 y]] have "h' = h" .
  with Cons.IH [OF r [unfolded o2]] show ?case by (simp add: resp y)
qed

lemma requestURIs_same_object:
  assumes "requestURIs n env locations method h w = (Return (statuss, headerss, contentss), w')"
  shows "headerss = replicate (length locations) h"
proof -
  obtain o1 w1 where m: "mapM (\<lambda>loc. requestURI n env loc method h) locations w = (o1, w1)"
    by (cases "mapM (\<lambda>loc. requestURI n env loc method h) locations w")
  from assms m obtain responses where o1: "o1 = Return responses"
    by (cases o1) (auto simp: requestURIs_def bind_def)
  from assms m o1 have "headerss = map (\<lambda>x. fst (snd x)) responses"
    by (simp add: requestURIs_def bind_def ret_def Let_def)
  with mapM_same_object [OF m [unfolded o1]] show ?thesis by simp
qed

text \<open>
  C8 asks that each fetch of a batch has header state of its own, so that the batch
  equals the list of single fetches. The code hands the one header object to every
  fetch and returns it for every URI. For the loader shim followed by the root path,
  both returned references are object 0, which after the batch holds the shim's
  \<open>last-modified\<close> and \<open>content-type\<close>; fetched alone with an empty object, the root
  path is answered 404 and the object stays empty.
\<close>

theorem shared_headers_in_batch:
  "fst (requestURIs (Suc 1) ex_env
          [''http://invalid.invalid/static/js/require-kernel.js'', ''http://invalid.invalid/static/'']
          ''GET'' 0 ex_world) =
     Return ([200, 404], [0, 0], [requireDefinition ex_env, []])
   \<and> heap (snd (requestURIs (Suc 1) ex_env
          [''http://invalid.invalid/static/js/require-kernel.js'', ''http://invalid.invalid/static/'']
          ''GET'' 0 ex_world)) 0 =
       [(''last-modified'', ''9''), (''date'', ''100''), (''expires'', ''160''),
        (''cache-control'', ''max-age=60''), (''content-type'', ''application/javascript'')]
   \<and> fst (requestURI (Suc 1) ex_env ''http://invalid.invalid/static/'' ''GET'' 0 ex_world) =
       Return (404, 0, [])
   \<and> heap (snd (requestURI (Suc 1) ex_env ''http://invalid.invalid/static/'' ''GET'' 0 ex_world)) 0 = []"
  by code_simp


section \<open>Library paths\<close>

lemma whitelist_names:
  assumes "name \<in> set LIBRARY_WHITELIST"
  shows "name \<noteq> []" and "CHR ''/'' \<notin> set name"
  using assms by (auto simp: LIBRARY_WHITELIST_def)

lemma match_plugin_path_bare:
  assumes "name \<noteq> []" and "CHR ''/'' \<notin> set name"
  shows "match_plugin_path (''plugins/'' @ name) = Some (name, None, None)"
proof -
  have all: "\<And>x. x \<in> set name \<Longrightarrow> x \<noteq> CHR ''/''"
    using assms(2) by auto
  have tw: "takeWhile (\<lambda>c. c \<noteq> CHR ''/'') name = name"
    using takeWhile_append2 [of name "\<lambda>c. c \<noteq> CHR ''/''" "[]"] all by simp
  have dw: "dropWhile (\<lambda>c. c \<noteq> CHR ''/'') name = []"
    using dropWhile_append2 [of name "\<lambda>c. c \<noteq> CHR ''/''" "[]"] all by simp
  have p: "prefix ''plugins/'' (''plugins/'' @ name)"
    and d: "drop 8 (''plugins/'' @ name) = name"
    by simp_all
  show ?thesis
    unfolding match_plugin_path_def Let_def
    by (simp only: p d tw dw) (simp add: assms(1))
qed

lemma match_plugin_path_rest:
  assumes "name \<noteq> []" and "CHR ''/'' \<notin> set name"
    and "\<not> list_ex is_line_terminator r"
  shows "match_plugin_path (''plugins/'' @ name @ CHR ''/'' # r) =
           Some (name, Some (CHR ''/'' # r), if prefix ''static/'' r then Some r else None)"
proof -
  have all: "\<And>x. x \<in> set name \<Longrightarrow> x \<noteq> CHR ''/''"
    using assms(2) by auto
  have tw: "takeWhile (\<lambda>c. c \<noteq> CHR ''/'') (name @ CHR ''/'' # r) = name"
    using takeWhile_append2 [of name "\<lambda>c. c \<noteq> CHR ''/''" "CHR ''/'' # r"] all by simp
  have dw: "dropWhile (\<lambda>c. c \<noteq> CHR ''/'') (name @ CHR ''/'' # r) = CHR ''/'' # r"
    using dropWhile_append2 [of name "\<lambda>c. c \<noteq> CHR ''/''" "CHR ''/'' # r"] all by simp
  have p: "prefix ''plugins/'' (''plugins/'' @ name @ CHR ''/'' # r)"
    and d: "drop 8 (''plugins/'' @ name @ CHR ''/'' # r) = name @ CHR ''/'' # r"
    by simp_all
  show ?thesis
    unfolding match_plugin_path_def Let_def
    by (simp only: p d tw dw) (simp add: assms(1,3))
qed

text \<open>The rewriting step alone, on a path of the form \<open>plugins/name rest\<close>.\<close>

lemma rewrite_whitelisted:
  assumes "name \<in> set LIBRARY_WHITELIST"
    and "rest = [] \<or> (hd rest = CHR ''/'' \<and> \<not> list_ex is_line_terminator (tl rest))"
    and "plugins env name = None \<or> \<not> prefix ''/static/'' rest"
  shows "rewrite_plugin_path env (''plugins/'' @ name @ rest) w =
           (Return (''../node_modules/'' @ name @ rest), w\<lparr>trace := trace w @ [PluginLookup name]\<rparr>)"
proof (cases "rest = []")
  case True
  have m: "match_plugin_path (''plugins/'' @ name @ rest) = Some (name, None, None)"
    unfolding True append_Nil2 by (rule match_plugin_path_bare [OF whitelist_names [OF assms(1)]])
  show ?thesis
    unfolding rewrite_plugin_path_def m
    using assms(1) by (simp add: Let_def bind_def emit_def ret_def True split: option.splits)
next
  case False
  with assms(2) obtain r where rest: "rest = CHR ''/'' # r" and r: "\<not> list_ex is_line_terminator r"
    by (cases rest) auto
  from assms(3) have "plugins env name = None \<or> \<not> prefix ''static/'' r"
    by (simp add: rest)
  then have np: "plugins env name = None \<or> \<not> prefix ''static/'' r" .
  have m: "match_plugin_path (''plugins/'' @ name @ rest) =
      Some (name, Some (CHR ''/'' # r), if prefix ''static/'' r then Some r else None)"
    unfolding rest list.sel by (rule match_plugin_path_rest [OF whitelist_names [OF assms(1)] r])
  show ?thesis
    unfolding rewrite_plugin_path_def m
    using assms(1) np by (auto simp: Let_def bind_def emit_def ret_def rest split: option.splits)
qed


text \<open>
  C2, as the code has it. Let \<open>plugins/name rest\<close> be a logical path that the confinement
  of lines 104 to 109 leaves as it is, with \<open>name\<close> on the whitelist, \<open>rest\<close> empty or
  beginning with \<open>/\<close> and holding no line terminator after it, and \<open>name\<close> not a
  registered plugin or \<open>rest\<close> not beginning with \<open>/static/\<close>. Then the path is rewritten
  to \<open>../node_modules/name rest\<close>, the registry is read for \<open>name\<close> exactly once on the
  way, and the handler goes on with the stat of the rewritten path and the freshness
  headers.
\<close>

theorem whitelisted_library_rewrite:
  assumes "name \<in> set LIBRARY_WHITELIST"
    and "rest = [] \<or> (hd rest = CHR ''/'' \<and> \<not> list_ex is_line_terminator (tl rest))"
    and "plugins env name = None \<or> \<not> prefix ''/static/'' rest"
    and "confine env (''plugins/'' @ name @ rest) = Some (''plugins/'' @ name @ rest)"
  shows "rewrite_plugin_path env (''plugins/'' @ name @ rest) w =
           (Return (''../node_modules/'' @ name @ rest), w\<lparr>trace := trace w @ [PluginLookup name]\<rparr>)
     \<and> locate env (''plugins/'' @ name @ rest) res w =
           bind (statFile env (''../node_modules/'' @ name @ rest) 3) (\<lambda>(date, exists).
             bind (set_freshness_headers env (map_option truncate_ms date) res) (\<lambda>res.
               ret (Some (''../node_modules/'' @ name @ rest, map_option truncate_ms date, exists, res))))
             (w\<lparr>trace := trace w @ [PluginLookup name]\<rparr>)"
proof -
  note r = rewrite_whitelisted [OF assms(1-3), of w]
  have "locate env (''plugins/'' @ name @ rest) res w =
           bind (statFile env (''../node_modules/'' @ name @ rest) 3) (\<lambda>(date, exists).
             bind (set_freshness_headers env (map_option truncate_ms date) res) (\<lambda>res.
               ret (Some (''../node_modules/'' @ name @ rest, map_option truncate_ms date, exists, res))))
             (w\<lparr>trace := trace w @ [PluginLookup name]\<rparr>)"
    unfolding locate_def assms(4) option.case
    by (subst bind_Return [where m = "rewrite_plugin_path env (''plugins/'' @ name @ rest)", OF r])
       (simp add: Let_def)
  with r show ?thesis by blast
qed

theorem whitelisted_library_rewrite_witness:
  "''async'' \<in> set LIBRARY_WHITELIST
   \<and> hd ''/lib/async.js'' = CHR ''/'' \<and> \<not> list_ex is_line_terminator (tl ''/lib/async.js'')
   \<and> plugins ex_env ''async'' = None
   \<and> confine ex_env (''plugins/'' @ ''async'' @ ''/lib/async.js'') = Some (''plugins/'' @ ''async'' @ ''/lib/async.js'')
   \<and> fst (locate ex_env (''plugins/'' @ ''async'' @ ''/lib/async.js'') (fresh_response 1) ex_world) =
        Return (Some (''../node_modules/async/lib/async.js'', None, False, fresh_response 1))
   \<and> trace (snd (locate ex_env (''plugins/'' @ ''async'' @ ''/lib/async.js'') (fresh_response 1) ex_world)) =
        [PluginLookup ''async'',
         FsStat ''/opt/etherpad/src/static/../node_modules/async/lib/async.js'',
         FsStat ''/opt/etherpad/src/static/../node_modules/async/lib'',
         FsStat ''/opt/etherpad/src/static/../node_modules/async'']"
proof -
  let ?next = "bind (statFile ex_env (''../node_modules/'' @ ''async'' @ ''/lib/async.js'') 3) (\<lambda>(date, exists).
             bind (set_freshness_headers ex_env (map_option truncate_ms date) (fresh_response 1)) (\<lambda>res.
               ret (Some (''../node_modules/'' @ ''async'' @ ''/lib/async.js'', map_option truncate_ms date, exists, res))))
             (ex_world\<lparr>trace := trace ex_world @ [PluginLookup ''async'']\<rparr>)"
  have a: "''async'' \<in> set LIBRARY_WHITELIST" by (simp add: LIBRARY_WHITELIST_def)
  have b1: "hd ''/lib/async.js'' = CHR ''/''" by simp
  have b2: "\<not> list_ex is_line_terminator (tl ''/lib/async.js'')" by (simp add: is_line_terminator_def)
  have c: "plugins ex_env ''async'' = None" by (simp add: ex_env_def)
  have d: "confine ex_env (''plugins/'' @ ''async'' @ ''/lib/async.js'') = Some (''plugins/'' @ ''async'' @ ''/lib/async.js'')"
    by code_simp
  from b1 b2 have b: "''/lib/async.js'' = [] \<or> (hd ''/lib/async.js'' = CHR ''/'' \<and> \<not> list_ex is_line_terminator (tl ''/lib/async.js''))"
    by blast
  from c have c': "plugins ex_env ''async'' = None \<or> \<not> prefix ''/static/'' ''/lib/async.js''"
    by blast
  from whitelisted_library_rewrite [OF a b c' d, of ex_world "fresh_response 1"]
  have eq: "locate ex_env (''plugins/'' @ ''async'' @ ''/lib/async.js'') (fresh_response 1) ex_world = ?next"
    by blast
  have e1: "fst ?next = Return (Some (''../node_modules/async/lib/async.js'', None, False, fresh_response 1))"
    by code_simp
  have e2: "trace (snd ?next) =
        [PluginLookup ''async'',
         FsStat ''/opt/etherpad/src/static/../node_modules/async/lib/async.js'',
         FsStat ''/opt/etherpad/src/static/../node_modules/async/lib'',
         FsStat ''/opt/etherpad/src/static/../node_modules/async'']"
    by code_simp
  show ?thesis
    unfolding eq by (intro conjI a b1 b2 c d e1 e2)
qed

text \<open>
  C2 as stated fails. The handler reads the registry for \<open>async\<close> before the whitelist is
  looked at, also when \<open>async\<close> is no plugin; and when a plugin is registered under that
  name and the rest begins with \<open>/static/\<close>, the registry is read twice (lines 126 and
  127) and the path is rewritten into the plugin's directory instead.
\<close>

theorem registry_read_first_counterexample:
  "''async'' \<in> set LIBRARY_WHITELIST
   \<and> confine ex_env ''plugins/async/static/a.js'' = Some ''plugins/async/static/a.js''
   \<and> trace (snd (locate ex_env ''plugins/async/static/a.js'' (fresh_response 1) ex_world)) =
        [PluginLookup ''async'',
         FsStat ''/opt/etherpad/src/static/../node_modules/async/static/a.js'',
         FsStat ''/opt/etherpad/src/static/../node_modules/async/static'',
         FsStat ''/opt/etherpad/src/static/../node_modules/async'']
   \<and> fst (locate ex_env_async ''plugins/async/static/a.js'' (fresh_response 1) ex_world) =
        Return (Some (''../../../../srv/plugins/async/static/a.js'', None, False, fresh_response 1))
   \<and> trace (snd (locate ex_env_async ''plugins/async/static/a.js'' (fresh_response 1) ex_world)) =
        [PluginLookup ''async'', PluginLookup ''async'',
         FsStat ''/opt/etherpad/src/static/../../../../srv/plugins/async/static/a.js'',
         FsStat ''/opt/etherpad/src/static/../../../../srv/plugins/async/static'',
         FsStat ''/opt/etherpad/src/static/../../../../srv/plugins/async'']"
  by code_simp

text \<open>A line terminator in the rest makes the pattern fail: the path is left as it is and
  the registry is not read.\<close>

lemma line_terminator_not_rewritten:
  "rewrite_plugin_path env (''plugins/async/a'' @ [newline] @ ''b'') w =
     (Return (''plugins/async/a'' @ [newline] @ ''b''), w)"
  by (simp add: rewrite_plugin_path_def match_plugin_path_def Let_def is_line_terminator_def
      newline_def ret_def)

text \<open>The confinement runs first. It deletes every \<open>..\<close> of the path, so the library
  path that is looked up can differ from the one requested; and a path that leaves the
  root is answered before the registry or the whitelist are looked at.\<close>

lemma dotdot_in_rest_example:
  "confine ex_env ''plugins/async/a..b.js'' = Some ''plugins/async/ab.js''
   \<and> fst (locate ex_env ''plugins/async/a..b.js'' (fresh_response 1) ex_world) =
        Return (Some (''../node_modules/async/ab.js'', None, False, fresh_response 1))"
  by code_simp

lemma traversal_under_plugins_example:
  "confine ex_env ''plugins/async/../../../../etc/passwd'' = None
   \<and> fst (locate ex_env ''plugins/async/../../../../etc/passwd'' (fresh_response 1) ex_world) =
        Return None
   \<and> trace (snd (locate ex_env ''plugins/async/../../../../etc/passwd'' (fresh_response 1) ex_world)) = []"
  by code_simp


section \<open>Assembly of the bootstrap file\<close>

text \<open>The content functions are stable when their fetcher is steady.\<close>

lemma stable_logger: "logger m \<Longrightarrow> stable m"
  unfolding stable_def by (blast intro: logger_fst)

lemma stable_ret: "stable (ret x)"
  by (simp add: stable_def ret_def)

lemma stable_bind:
  assumes "stable m" and "\<And>x. stable (f x)"
  shows "stable (bind m f)"
  unfolding stable_def
proof (intro allI)
  fix w w'
  obtain o1 w1 where a: "m w = (o1, w1)" by (cases "m w")
  obtain o2 w2 where b: "m w' = (o2, w2)" by (cases "m w'")
  from assms(1) a b have eq: "o2 = o1" unfolding stable_def by (metis fst_conv)
  show "fst (bind m f w) = fst (bind m f w')"
  proof (cases o1)
    case (Return x)
    from assms(2) [of x] have "fst (f x w1) = fst (f x w2)" unfolding stable_def by blast
    then show ?thesis by (simp add: bind_def a b eq Return)
  qed (simp_all add: bind_def a b eq)
qed

lemma stable_foldM:
  assumes "\<And>s x. stable (f s x)"
  shows "stable (foldM f xs s)"
  by (induction xs arbitrary: s) (simp_all add: stable_ret stable_bind assms)

lemma logger_readFile_io: "logger (readFile_io env p)"
  by (simp add: readFile_io_def logger_bind logger_emit logger_of_result)

lemma embed_fst:
  "fst (embed fetch data f w) =
     map_outcome (\<lambda>(s, b). data @ embedded f s b)
       (map_outcome (\<lambda>(s, h, b). (s, b))
          (fst (fetch (resourceURI_of f) ''GET'' (next_ref w)
             (w\<lparr>heap := (heap w)(next_ref w := []), next_ref := Suc (next_ref w)\<rparr>))))"
proof -
  let ?w0 = "w\<lparr>heap := (heap w)(next_ref w := []), next_ref := Suc (next_ref w)\<rparr>"
  obtain out w1 where f: "fetch (resourceURI_of f) ''GET'' (next_ref w) ?w0 = (out, w1)"
    by (cases "fetch (resourceURI_of f) ''GET'' (next_ref w) ?w0")
  show ?thesis
    by (cases out)
       (auto simp: embed_def Let_def new_object_def bind_def f ret_def emit_def embedded_def
          JSON_stringify_def)
qed

lemma embed_stable:
  assumes "steady fetch"
  shows "stable (embed fetch data f)"
  unfolding stable_def
proof (intro allI)
  fix w w' :: world
  let ?w0 = "w\<lparr>heap := (heap w)(next_ref w := []), next_ref := Suc (next_ref w)\<rparr>"
  let ?w0' = "w'\<lparr>heap := (heap w')(next_ref w' := []), next_ref := Suc (next_ref w')\<rparr>"
  have "unconditional ?w0 (next_ref w)" and "unconditional ?w0' (next_ref w')"
    by (simp_all add: unconditional_def)
  with assms have
    "map_outcome (\<lambda>(s, h, b). (s, b)) (fst (fetch (resourceURI_of f) ''GET'' (next_ref w) ?w0)) =
     map_outcome (\<lambda>(s, h, b). (s, b)) (fst (fetch (resourceURI_of f) ''GET'' (next_ref w') ?w0'))"
    unfolding steady_def by blast
  then show "fst (embed fetch data f w) = fst (embed fetch data f w')"
    by (simp only: embed_fst)
qed

lemma stable_emit: "stable (emit ev)"
  by (rule stable_logger) (rule logger_emit)

lemma stable_readFile_io: "stable (readFile_io env p)"
  by (rule stable_logger) (rule logger_readFile_io)

lemma getAceFile_stable:
  assumes "steady fetch"
  shows "stable (getAceFile fetch env)"
  unfolding getAceFile_def Let_def
  by (intro stable_bind stable_foldM stable_readFile_io embed_stable assms)

lemma getFile_stable:
  assumes "steady fetch"
  shows "stable (getFile fetch env filename)"
  unfolding getFile_def
  by (simp add: stable_bind stable_ret stable_readFile_io getAceFile_stable assms)

lemma getFileCompressed_stable:
  assumes "steady fetch"
  shows "stable (getFileCompressed fetch env filename contentType)"
  unfolding getFileCompressed_def
proof (rule stable_bind [OF getFile_stable [OF assms]])
  fix content
  show "stable (if \<not> truthy content \<or> \<not> settings_minify env then ret content
       else if contentType = Some ''application/javascript'' then
         bind (emit (QueueCompressJS filename)) (\<lambda>_.
         bind (emit (LoggerInfo (''Compress JS file '' @ filename @ ''.''))) (\<lambda>_.
           let content = Str (content_toString content) in
           case compressJS env (content_toString content) of
             CompressThrows error \<Rightarrow>
               bind (emit (ConsoleError (''getFile() returned an error in getFileCompressed('' @
                       filename @ '', application/javascript)'')))
                 (\<lambda>_. ret content)
           | CompressResult True _ \<Rightarrow>
               bind (emit (ConsoleError (''Error compressing JS ('' @ filename @ '') using terser'')))
                 (\<lambda>_. ret content)
           | CompressResult False (Some code) \<Rightarrow> ret (Str code)
           | CompressResult False None \<Rightarrow>
               bind (emit (ConsoleError (''getFile() returned an error in getFileCompressed('' @
                       filename @ '', application/javascript)'')))
                 (\<lambda>_. ret content)))
       else if contentType = Some ''text/css'' then
         bind (emit (QueueCompressCSS filename)) (\<lambda>_.
         bind (emit (LoggerInfo (''Compress CSS file '' @ filename @ ''.''))) (\<lambda>_.
           case compressCSS env filename (ROOT_DIR env) of
             Inl error \<Rightarrow>
               bind (emit (ConsoleError (''CleanCSS.minify() returned an error on '' @ filename)))
                 (\<lambda>_. ret content)
           | Inr css \<Rightarrow> ret (Str css)))
       else ret content)"
    by (rule stable_logger)
       (auto simp: Let_def logger_ret logger_emit
        split: compress_result.splits option.splits sum.splits bool.splits intro!: logger_bind)
qed


text \<open>
  The loopback fetcher is steady. \<open>locate\<close> finds the same file whatever the world and
  the response object, and leaves \<open>if-modified-since\<close> alone; an unconditional GET is
  then answered 404 or 200 with the content, which is stable by induction on the depth
  of the recursion.
\<close>

lemma map_outcome_ReturnD: "map_outcome f x = Return y \<Longrightarrow> \<exists>z. x = Return z \<and> y = f z"
  by (cases x) auto

lemma locate_cases:
  "\<exists>loc. \<forall>res w.
     fst (locate env requested res w) = map_outcome (map_option (\<lambda>(fn, d, e). (fn, d, e, res))) loc
     \<and> (\<forall>h. unconditional (snd (locate env requested res w)) h = unconditional w h)"
proof (cases "confine env requested")
  case None
  show ?thesis
    by (rule exI [where x = "Return None"]) (simp add: locate_def None ret_def)
next
  case (Some c)
  from logger_rewrite [of env c] obtain o1 e1 where
    r: "\<And>w. rewrite_plugin_path env c w = (o1, w\<lparr>trace := trace w @ e1\<rparr>)"
    unfolding logger_def by blast
  show ?thesis
  proof (cases o1)
    case (Return fn)
    from logger_statFile [of env fn 3] obtain o2 e2 where
      s: "\<And>w. statFile env fn 3 w = (o2, w\<lparr>trace := trace w @ e2\<rparr>)"
      unfolding logger_def by blast
    show ?thesis
    proof (cases o2)
      case (Return de)
      obtain d0 ex where de: "de = (d0, ex)" by (cases de)
      have "locate env requested res w =
              (Return (Some (fn, map_option truncate_ms d0, ex, res)),
               snd (set_freshness_headers env (map_option truncate_ms d0) res
                 (w\<lparr>trace := trace w @ e1\<rparr>\<lparr>trace := trace (w\<lparr>trace := trace w @ e1\<rparr>) @ e2\<rparr>)))"
        for res w
        by (rule locate_run [OF Some r [unfolded \<open>o1 = Return fn\<close>] s [unfolded Return de]])
      then show ?thesis
        by (intro exI [where x = "Return (Some (fn, map_option truncate_ms d0, ex))"])
           (simp add: unconditional_def sfh_ims)
    next
      case (Throw e)
      show ?thesis
        by (rule exI [where x = "Throw e"])
           (simp add: locate_def Some bind_def r \<open>o1 = Return fn\<close> s Throw unconditional_def)
    next
      case Pending
      show ?thesis
        by (rule exI [where x = Pending])
           (simp add: locate_def Some bind_def r \<open>o1 = Return fn\<close> s Pending unconditional_def)
    qed
  next
    case (Throw e)
    show ?thesis
      by (rule exI [where x = "Throw e"])
         (simp add: locate_def Some bind_def r Throw unconditional_def)
  next
    case Pending
    show ?thesis
      by (rule exI [where x = Pending])
         (simp add: locate_def Some bind_def r Pending unconditional_def)
  qed
qed

lemma respond_settle:
  assumes "unconditional w h" and "req_method req = ''GET''" and "req_headers req = h"
  shows "settle (fst (respond fetch env req filename date exists (fresh_response h) w)) =
     (if exists
      then map_outcome (\<lambda>c. (200, content_toString c))
             (fst (getFileCompressed fetch env filename (mime_lookup env filename) w))
      else Return (404, []))"
proof (cases exists)
  case False
  then show ?thesis
    by (simp add: respond_def Let_def res_writeHead_def res_end_def bind_def ret_def
        fresh_response_def)
next
  case True
  obtain out w1 where g: "getFileCompressed fetch env filename (mime_lookup env filename) w = (out, w1)"
    by (cases "getFileCompressed fetch env filename (mime_lookup env filename) w")
  have body: "\<not> truthy content \<Longrightarrow> content_toString content = []" for content
    by (cases content) auto
  from assms True g body show ?thesis
    by (cases out)
       (simp_all add: respond_def Let_def get_prop_def bind_def ret_def res_writeHead_def
          res_end_def fresh_response_def res_header_def set_prop_def res_write_def
          unconditional_def)
qed

lemma minify_with_settle:
  "\<exists>loc :: (string \<times> int option \<times> bool) option outcome.
     \<forall>fetch url h w. unconditional w h \<longrightarrow>
     settle (fst (minify_with fetch env
            \<lparr>req_url = url, req_method = ''GET'', req_filename = rf, req_headers = h\<rparr>
            (fresh_response h) w)) =
     (case loc of
        Return None \<Rightarrow> Return (404, [])
      | Return (Some (fn, d, e)) \<Rightarrow>
          (if e then map_outcome (\<lambda>c. (200, content_toString c))
                  (fst (getFileCompressed fetch env fn (mime_lookup env fn)
                     (snd (locate env rf (fresh_response h) w))))
           else Return (404, []))
      | Throw err \<Rightarrow> Throw err
      | Pending \<Rightarrow> Pending)"
proof -
  from locate_cases [of env rf] obtain loc where
    l: "\<And>res w. fst (locate env rf res w) = map_outcome (map_option (\<lambda>(fn, d, e). (fn, d, e, res))) loc"
    and u: "\<And>res w h. unconditional (snd (locate env rf res w)) h = unconditional w h"
    by blast
  have key: "settle (fst (minify_with fetch env
            \<lparr>req_url = url, req_method = ''GET'', req_filename = rf, req_headers = h\<rparr>
            (fresh_response h) w)) =
     (case loc of
        Return None \<Rightarrow> Return (404, [])
      | Return (Some (fn, d, e)) \<Rightarrow>
          (if e then map_outcome (\<lambda>c. (200, content_toString c))
                  (fst (getFileCompressed fetch env fn (mime_lookup env fn)
                     (snd (locate env rf (fresh_response h) w))))
           else Return (404, []))
      | Throw err \<Rightarrow> Throw err
      | Pending \<Rightarrow> Pending)"
    if un: "unconditional w h" for fetch url h w
  proof -
    let ?req = "\<lparr>req_url = url, req_method = ''GET'', req_filename = rf, req_headers = h\<rparr>"
    obtain lo w1 where a: "locate env rf (fresh_response h) w = (lo, w1)"
      by (cases "locate env rf (fresh_response h) w")
    from l [of "fresh_response h" w] a
    have lo: "lo = map_outcome (map_option (\<lambda>(fn, d, e). (fn, d, e, fresh_response h))) loc"
      by simp
    from u [of "fresh_response h" w h] a un have u1: "unconditional w1 h" by simp
    show ?thesis
    proof (cases loc)
      case (Return x)
      show ?thesis
      proof (cases x)
        case None
        have m: "minify_with fetch env ?req (fresh_response h) w =
                 bind (res_writeHead 404 [] (fresh_response h)) res_end w1"
          by (simp add: minify_with_def bind_def a lo Return None)
        show ?thesis
          unfolding m
          by (simp add: Return None bind_def res_writeHead_def res_end_def ret_def
              fresh_response_def)
      next
        case (Some t)
        obtain fn d e where t: "t = (fn, d, e)" by (cases t)
        have m: "minify_with fetch env ?req (fresh_response h) w =
                 respond fetch env ?req fn d e (fresh_response h) w1"
          by (simp add: minify_with_def bind_def a lo Return Some t)
        have "settle (fst (respond fetch env ?req fn d e (fresh_response h) w1)) =
            (if e then map_outcome (\<lambda>c. (200, content_toString c))
                  (fst (getFileCompressed fetch env fn (mime_lookup env fn) w1))
             else Return (404, []))"
          by (rule respond_settle [OF u1]) simp_all
        then show ?thesis by (simp add: m Return Some t a)
      qed
    qed (simp_all add: minify_with_def bind_def a lo)
  qed
  show ?thesis by (intro exI [where x = loc] allI impI) (rule key)
qed

lemma minify_with_steady:
  assumes "steady fetch" and "unconditional w h" and "unconditional w' h'"
  shows "settle (fst (minify_with fetch env
            \<lparr>req_url = url, req_method = ''GET'', req_filename = rf, req_headers = h\<rparr>
            (fresh_response h) w)) =
         settle (fst (minify_with fetch env
            \<lparr>req_url = url, req_method = ''GET'', req_filename = rf, req_headers = h'\<rparr>
            (fresh_response h') w'))"
proof -
  from minify_with_settle [of env rf]
  obtain loc :: "(string \<times> int option \<times> bool) option outcome" where
    s: "\<And>fetch url h w. unconditional w h \<Longrightarrow>
     settle (fst (minify_with fetch env
            \<lparr>req_url = url, req_method = ''GET'', req_filename = rf, req_headers = h\<rparr>
            (fresh_response h) w)) =
     (case loc of
        Return None \<Rightarrow> Return (404, [])
      | Return (Some (fn, d, e)) \<Rightarrow>
          (if e then map_outcome (\<lambda>c. (200, content_toString c))
                  (fst (getFileCompressed fetch env fn (mime_lookup env fn)
                     (snd (locate env rf (fresh_response h) w))))
           else Return (404, []))
      | Throw err \<Rightarrow> Throw err
      | Pending \<Rightarrow> Pending)"
    by blast
  have g: "fst (getFileCompressed fetch env fn ct v) = fst (getFileCompressed fetch env fn ct v')"
    for fn ct v v'
    using getFileCompressed_stable [OF assms(1), of env fn ct] unfolding stable_def by blast
  show ?thesis
    unfolding s [OF assms(2)] s [OF assms(3)]
    by (auto split: outcome.splits option.splits
        intro: arg_cong [where f = "map_outcome (\<lambda>c. (200, content_toString c))"] g)
qed

lemma minify_with_status:
  assumes "unconditional w h"
    and "settle (fst (minify_with fetch env
            \<lparr>req_url = url, req_method = ''GET'', req_filename = rf, req_headers = h\<rparr>
            (fresh_response h) w)) = Return (s, b)"
  shows "s = 200 \<or> s = 404"
proof -
  from minify_with_settle [of env rf]
  obtain loc :: "(string \<times> int option \<times> bool) option outcome" where
    s: "\<And>fetch url h w. unconditional w h \<Longrightarrow>
     settle (fst (minify_with fetch env
            \<lparr>req_url = url, req_method = ''GET'', req_filename = rf, req_headers = h\<rparr>
            (fresh_response h) w)) =
     (case loc of
        Return None \<Rightarrow> Return (404, [])
      | Return (Some (fn, d, e)) \<Rightarrow>
          (if e then map_outcome (\<lambda>c. (200, content_toString c))
                  (fst (getFileCompressed fetch env fn (mime_lookup env fn)
                     (snd (locate env rf (fresh_response h) w))))
           else Return (404, []))
      | Throw err \<Rightarrow> Throw err
      | Pending \<Rightarrow> Pending)"
    by blast
  from assms(2) show ?thesis
    unfolding s [OF assms(1)]
    by (cases loc) (auto split: option.splits if_splits dest!: map_outcome_ReturnD)
qed

lemma requestURI_with_answer:
  "map_outcome (\<lambda>(s, h, b). (s, b)) (fst (requestURI_with handler env url method h w)) =
     (case parseURL env url of
        None \<Rightarrow> Throw TypeError
      | Some (pathname, search) \<Rightarrow>
          settle (fst (handler
            \<lparr>req_url = url, req_method = method,
             req_filename = strip_static (pathname @ search), req_headers = h\<rparr>
            (fresh_response h) w)))"
proof (cases "parseURL env url")
  case None
  then show ?thesis by (simp add: requestURI_with_def throw_def)
next
  case (Some ps)
  obtain pathname search where ps: "ps = (pathname, search)" by (cases ps)
  let ?req = "\<lparr>req_url = url, req_method = method,
             req_filename = strip_static (pathname @ search), req_headers = h\<rparr>"
  obtain out w1 where m: "handler ?req (fresh_response h) w = (out, w1)"
    by (cases "handler ?req (fresh_response h) w")
  show ?thesis
    by (cases out)
       (auto simp: requestURI_with_def Some ps Let_def bind_def m ret_def pending_def
          split: option.splits)
qed

lemma requestURI_steady: "steady (requestURI n env)"
proof (induction n)
  case 0
  show ?case
    by (simp add: steady_def requestURI_def requestURI_with_answer minify.simps pending_def
        split: option.splits)
next
  case (Suc n)
  have m: "minify (Suc n) env = minify_with (requestURI n env) env"
    by (simp add: minify.simps requestURI_def)
  show ?case
    unfolding steady_def requestURI_def [of "Suc n"] requestURI_with_answer m
    by (auto split: option.splits intro: minify_with_steady [OF Suc])
qed

lemma requestURI_status:
  assumes "unconditional w h" and "fst (requestURI n env url ''GET'' h w) = Return (s, h', b)"
  shows "s = 200 \<or> s = 404"
proof (cases n)
  case 0
  from assms(2) have "map_outcome (\<lambda>(s, h, b). (s, b)) (fst (requestURI n env url ''GET'' h w)) = Return (s, b)"
    by simp
  then show ?thesis
    by (simp add: 0 requestURI_def requestURI_with_answer minify.simps pending_def
        split: option.splits)
next
  case (Suc k)
  have m: "minify (Suc k) env = minify_with (requestURI k env) env"
    by (simp add: minify.simps requestURI_def)
  from assms(2) have "map_outcome (\<lambda>(s, h, b). (s, b)) (fst (requestURI n env url ''GET'' h w)) = Return (s, b)"
    by simp
  then show ?thesis
    unfolding Suc requestURI_def [of "Suc k"] requestURI_with_answer m
    by (auto split: option.splits dest: minify_with_status [OF assms(1)])
qed


text \<open>The callbacks of \<open>getAceFile\<close>, run in some order.\<close>

lemma embed_all:
  assumes "\<And>f h w. f \<in> set fs \<Longrightarrow> heap w h = [] \<Longrightarrow>
             map_outcome (\<lambda>(s, h, b). (s, b)) (fst (fetch (resourceURI_of f) ''GET'' h w)) =
             Return (st f, body f)"
  shows "fst (foldM (embed fetch) fs data w) =
           Return (data @ concat (map (\<lambda>f. embedded f (st f) (body f)) fs))"
  using assms
proof (induction fs arbitrary: data w)
  case Nil
  show ?case by (simp add: ret_def)
next
  case (Cons f fs)
  let ?w0 = "w\<lparr>heap := (heap w)(next_ref w := []), next_ref := Suc (next_ref w)\<rparr>"
  obtain out w1 where e: "embed fetch data f w = (out, w1)"
    by (cases "embed fetch data f w")
  have "map_outcome (\<lambda>(s, h, b). (s, b)) (fst (fetch (resourceURI_of f) ''GET'' (next_ref w) ?w0)) =
          Return (st f, body f)"
    by (rule Cons.prems) simp_all
  with embed_fst [of fetch data f w] e have out: "out = Return (data @ embedded f (st f) (body f))"
    by simp
  have "fst (foldM (embed fetch) fs (data @ embedded f (st f) (body f)) w1) =
          Return ((data @ embedded f (st f) (body f)) @ concat (map (\<lambda>f. embedded f (st f) (body f)) fs))"
    by (rule Cons.IH) (rule Cons.prems, simp_all)
  then show ?case by (simp add: bind_def e out)
qed

text \<open>
  C7. Let the fetcher answer the GET of every referenced path, started with a fresh
  header object, with a status \<open>st f\<close> and a body \<open>body f\<close>, and let the callbacks
  finish in some order. Then \<open>getAceFile\<close> returns: its text is the source and the
  preamble, followed for every referenced path, in the order of finishing, by the line
  \<open>Ace2Editor.EMBEDED["f"] = null;\<close> when the status was 404, by the assignment of the
  body when it was 200, and by nothing otherwise; in particular the text for a
  referenced path \<open>g\<close> is part of the result. The callback for \<open>g\<close> logs
  \<open>getAceFile(): error getting ...\<close> after the fetch exactly when the status is neither
  200 nor 404. The loopback fetcher meets the hypothesis wherever it answers
  (\<open>requestURI_steady\<close>).
\<close>

theorem embed_missing_as_null:
  assumes "fs_readFile env (ROOT_DIR env @ ''js/ace.js'') = Inr source"
    and "\<And>f h w. f \<in> set (referenced env source) \<Longrightarrow> heap w h = [] \<Longrightarrow>
           map_outcome (\<lambda>(s, h, b). (s, b)) (fst (fetch (resourceURI_of f) ''GET'' h w)) =
           Return (st f, body f)"
    and "mset (finish_order env (referenced env source)) = mset (referenced env source)"
    and "g \<in> set (referenced env source)"
  shows "fst (getAceFile fetch env w) =
           Return (source @ '';'' @ [newline] @
                   ''Ace2Editor.EMBEDED = Ace2Editor.EMBEDED || {};'' @ [newline] @
                   concat (map (\<lambda>f. embedded f (st f) (body f))
                     (finish_order env (referenced env source))))
     \<and> sublist (embedded g (st g) (body g))
         (concat (map (\<lambda>f. embedded f (st f) (body f)) (finish_order env (referenced env source))))
     \<and> fst (embed fetch data g v) = Return (data @ embedded g (st g) (body g))
     \<and> trace (snd (embed fetch data g v)) =
         trace (snd (fetch (resourceURI_of g) ''GET'' (next_ref v)
           (v\<lparr>heap := (heap v)(next_ref v := []), next_ref := Suc (next_ref v)\<rparr>))) @
         (if st g = 200 \<or> st g = 404 then []
          else [ConsoleError (''getAceFile(): error getting '' @ resourceURI_of g @
                  ''. Status code: '' @ string_of_nat (st g))])"
proof -
  let ?order = "finish_order env (referenced env source)"
  let ?v0 = "v\<lparr>heap := (heap v)(next_ref v := []), next_ref := Suc (next_ref v)\<rparr>"
  from assms(3) have same: "set ?order = set (referenced env source)"
    by (rule mset_eq_setD)
  have "fst (foldM (embed fetch) ?order data' w') =
          Return (data' @ concat (map (\<lambda>f. embedded f (st f) (body f)) ?order))" for data' w'
    by (rule embed_all) (rule assms(2), simp_all add: same)
  with assms(1) have a: "fst (getAceFile fetch env w) =
           Return (source @ '';'' @ [newline] @
                   ''Ace2Editor.EMBEDED = Ace2Editor.EMBEDED || {};'' @ [newline] @
                   concat (map (\<lambda>f. embedded f (st f) (body f)) ?order))"
    by (simp add: getAceFile_def Let_def readFile_io_def bind_def emit_def of_result_def ret_def)
  from assms(4) same have "g \<in> set ?order" by simp
  then obtain xs ys where "?order = xs @ g # ys" by (auto dest: split_list)
  then have b: "sublist (embedded g (st g) (body g))
         (concat (map (\<lambda>f. embedded f (st f) (body f)) ?order))"
    by (simp add: sublist_appendI)
  have fg: "map_outcome (\<lambda>(s, h, b). (s, b)) (fst (fetch (resourceURI_of g) ''GET'' (next_ref v) ?v0)) =
          Return (st g, body g)"
    by (rule assms(2) [OF assms(4)]) simp
  with embed_fst [of fetch data g v]
  have c: "fst (embed fetch data g v) = Return (data @ embedded g (st g) (body g))"
    by simp
  obtain out v1 where f: "fetch (resourceURI_of g) ''GET'' (next_ref v) ?v0 = (out, v1)"
    by (cases "fetch (resourceURI_of g) ''GET'' (next_ref v) ?v0")
  from fg f obtain h' where out: "out = Return (st g, h', body g)"
    by (cases out) auto
  have d: "trace (snd (embed fetch data g v)) =
         trace (snd (fetch (resourceURI_of g) ''GET'' (next_ref v) ?v0)) @
         (if st g = 200 \<or> st g = 404 then []
          else [ConsoleError (''getAceFile(): error getting '' @ resourceURI_of g @
                  ''. Status code: '' @ string_of_nat (st g))])"
    by (simp add: embed_def Let_def new_object_def bind_def f out ret_def emit_def)
  from a b c d show ?thesis by blast
qed

theorem embed_missing_as_null_witness:
  "fs_readFile ex_env (ROOT_DIR ex_env @ ''js/ace.js'') = Inr ex_ace_source
   \<and> referenced ex_env ex_ace_source =
       [''../static/js/gone.js'', ''../static/css/pad.css'', ''../static/js/require-kernel.js'']
   \<and> finish_order ex_env (referenced ex_env ex_ace_source) =
       [''../static/js/require-kernel.js'', ''../static/css/pad.css'', ''../static/js/gone.js'']
   \<and> fst (requestURI (Suc 0) ex_env ''http://invalid.invalid/static/js/gone.js'' ''GET'' 0 ex_world) =
       Return (404, 0, [])
   \<and> fst (requestURI (Suc 0) ex_env ''http://invalid.invalid/static/css/pad.css'' ''GET'' 0 ex_world) =
       Return (200, 0, ''body { }'')
   \<and> fst (requestURI (Suc 0) ex_env ''http://invalid.invalid/static/js/require-kernel.js'' ''GET'' 0 ex_world) =
       Return (200, 0, ''var require = function () {};'' @ [CHR 0x0A])
   \<and> fst (getAceFile (requestURI (Suc 0) ex_env) ex_env ex_world) =
       Return (ex_ace_source @ '';'' @ [CHR 0x0A] @
         ''Ace2Editor.EMBEDED = Ace2Editor.EMBEDED || {};'' @ [CHR 0x0A] @
         ''Ace2Editor.EMBEDED['' @ [CHR 0x22] @ ''../static/js/require-kernel.js'' @ [CHR 0x22] @
           ''] = '' @ [CHR 0x22] @ ''var require = function () {};'' @ [CHR 0x5C] @ ''n'' @ [CHR 0x22] @
           '';'' @ [CHR 0x0A] @
         ''Ace2Editor.EMBEDED['' @ [CHR 0x22] @ ''../static/css/pad.css'' @ [CHR 0x22] @
           ''] = '' @ [CHR 0x22] @ ''body { }'' @ [CHR 0x22] @ '';'' @ [CHR 0x0A] @
         ''Ace2Editor.EMBEDED['' @ [CHR 0x22] @ ''../static/js/gone.js'' @ [CHR 0x22] @
           ''] = null;'' @ [CHR 0x0A])
   \<and> fst (embed (requestURI (Suc 0) ex_env) ''var x;'' ''../static/js/gone.js'' ex_world) =
       Return (''var x;'' @ ''Ace2Editor.EMBEDED['' @ [CHR 0x22] @ ''../static/js/gone.js'' @ [CHR 0x22] @
           ''] = null;'' @ [CHR 0x0A])
   \<and> trace (snd (embed (requestURI (Suc 0) ex_env) ''var x;'' ''../static/js/gone.js'' ex_world)) =
       [FsStat ''/opt/etherpad/src/static/js/gone.js'', FsStat ''/opt/etherpad/src/static/js'']"
proof -
  let ?gone = "''../static/js/gone.js''"
  let ?css = "''../static/css/pad.css''"
  let ?kernel = "''../static/js/require-kernel.js''"
  let ?st = "\<lambda>f. if f = ?gone then 404 else (200 :: nat)"
  let ?body = "\<lambda>f. if f = ?gone then [] else if f = ?css then ''body { }''
                   else ''var require = function () {};'' @ [CHR 0x0A]"
  let ?fetch = "requestURI (Suc 0) ex_env"
  have src: "fs_readFile ex_env (ROOT_DIR ex_env @ ''js/ace.js'') = Inr ex_ace_source"
    by code_simp
  have refs: "referenced ex_env ex_ace_source = [?gone, ?css, ?kernel]"
    by code_simp
  have order: "finish_order ex_env (referenced ex_env ex_ace_source) = [?kernel, ?css, ?gone]"
    unfolding refs by (simp add: ex_env_def)
  have u1: "resourceURI_of ?gone = ''http://invalid.invalid/static/js/gone.js''" by code_simp
  have u2: "resourceURI_of ?css = ''http://invalid.invalid/static/css/pad.css''" by code_simp
  have u3: "resourceURI_of ?kernel = ''http://invalid.invalid/static/js/require-kernel.js''" by code_simp
  have f1: "fst (?fetch ''http://invalid.invalid/static/js/gone.js'' ''GET'' 0 ex_world) =
       Return (404, 0, [])"
    by code_simp
  have f2: "fst (?fetch ''http://invalid.invalid/static/css/pad.css'' ''GET'' 0 ex_world) =
       Return (200, 0, ''body { }'')"
    by code_simp
  have f3: "fst (?fetch ''http://invalid.invalid/static/js/require-kernel.js'' ''GET'' 0 ex_world) =
       Return (200, 0, ''var require = function () {};'' @ [CHR 0x0A])"
    by code_simp
  have u0: "unconditional ex_world 0"
    by (simp add: unconditional_def ex_world_def)
  have fetched: "map_outcome (\<lambda>(s, h, b). (s, b)) (fst (?fetch (resourceURI_of f) ''GET'' h w)) =
           Return (?st f, ?body f)"
    if f: "f \<in> set (referenced ex_env ex_ace_source)" and h: "heap w h = []" for f h w
  proof -
    from h have "unconditional w h" by (simp add: unconditional_def)
    with requestURI_steady [of "Suc 0" ex_env] u0
    have eq: "map_outcome (\<lambda>(s, h, b). (s, b)) (fst (?fetch (resourceURI_of f) ''GET'' h w)) =
          map_outcome (\<lambda>(s, h, b). (s, b)) (fst (?fetch (resourceURI_of f) ''GET'' 0 ex_world))"
      unfolding steady_def by blast
    from f have "f = ?gone \<or> f = ?css \<or> f = ?kernel"
      unfolding refs by simp
    then show ?thesis
      unfolding eq by (elim disjE) (simp_all add: u1 u2 u3 f1 f2 f3)
  qed
  have perm: "mset (finish_order ex_env (referenced ex_env ex_ace_source)) =
              mset (referenced ex_env ex_ace_source)"
    unfolding order unfolding refs by simp
  have g: "?gone \<in> set (referenced ex_env ex_ace_source)"
    unfolding refs by simp
  note inst = embed_missing_as_null [of ex_env ex_ace_source ?fetch ?st ?body ?gone ex_world
      "''var x;''" ex_world, OF src fetched perm g]
  have whole: "ex_ace_source @ '';'' @ [newline] @
         ''Ace2Editor.EMBEDED = Ace2Editor.EMBEDED || {};'' @ [newline] @
         concat (map (\<lambda>f. embedded f (?st f) (?body f)) [?kernel, ?css, ?gone]) =
       ex_ace_source @ '';'' @ [CHR 0x0A] @
         ''Ace2Editor.EMBEDED = Ace2Editor.EMBEDED || {};'' @ [CHR 0x0A] @
         ''Ace2Editor.EMBEDED['' @ [CHR 0x22] @ ''../static/js/require-kernel.js'' @ [CHR 0x22] @
           ''] = '' @ [CHR 0x22] @ ''var require = function () {};'' @ [CHR 0x5C] @ ''n'' @ [CHR 0x22] @
           '';'' @ [CHR 0x0A] @
         ''Ace2Editor.EMBEDED['' @ [CHR 0x22] @ ''../static/css/pad.css'' @ [CHR 0x22] @
           ''] = '' @ [CHR 0x22] @ ''body { }'' @ [CHR 0x22] @ '';'' @ [CHR 0x0A] @
         ''Ace2Editor.EMBEDED['' @ [CHR 0x22] @ ''../static/js/gone.js'' @ [CHR 0x22] @
           ''] = null;'' @ [CHR 0x0A]"
    by code_simp
  have piece: "''var x;'' @ embedded ?gone (?st ?gone) (?body ?gone) =
       ''var x;'' @ ''Ace2Editor.EMBEDED['' @ [CHR 0x22] @ ''../static/js/gone.js'' @ [CHR 0x22] @
           ''] = null;'' @ [CHR 0x0A]"
    by code_simp
  have tr: "trace (snd (?fetch (resourceURI_of ?gone) ''GET'' (next_ref ex_world)
           (ex_world\<lparr>heap := (heap ex_world)(next_ref ex_world := []),
                      next_ref := Suc (next_ref ex_world)\<rparr>))) @
         (if ?st ?gone = 200 \<or> ?st ?gone = 404 then []
          else [ConsoleError (''getAceFile(): error getting '' @ resourceURI_of ?gone @
                  ''. Status code: '' @ string_of_nat (?st ?gone))]) =
       [FsStat ''/opt/etherpad/src/static/js/gone.js'', FsStat ''/opt/etherpad/src/static/js'']"
    by code_simp
  from inst have r1: "fst (getAceFile ?fetch ex_env ex_world) =
       Return (ex_ace_source @ '';'' @ [CHR 0x0A] @
         ''Ace2Editor.EMBEDED = Ace2Editor.EMBEDED || {};'' @ [CHR 0x0A] @
         ''Ace2Editor.EMBEDED['' @ [CHR 0x22] @ ''../static/js/require-kernel.js'' @ [CHR 0x22] @
           ''] = '' @ [CHR 0x22] @ ''var require = function () {};'' @ [CHR 0x5C] @ ''n'' @ [CHR 0x22] @
           '';'' @ [CHR 0x0A] @
         ''Ace2Editor.EMBEDED['' @ [CHR 0x22] @ ''../static/css/pad.css'' @ [CHR 0x22] @
           ''] = '' @ [CHR 0x22] @ ''body { }'' @ [CHR 0x22] @ '';'' @ [CHR 0x0A] @
         ''Ace2Editor.EMBEDED['' @ [CHR 0x22] @ ''../static/js/gone.js'' @ [CHR 0x22] @
           ''] = null;'' @ [CHR 0x0A])"
    unfolding order whole by (rule conjunct1)
  from inst have r2: "fst (embed ?fetch ''var x;'' ?gone ex_world) =
       Return (''var x;'' @ ''Ace2Editor.EMBEDED['' @ [CHR 0x22] @ ''../static/js/gone.js'' @ [CHR 0x22] @
           ''] = null;'' @ [CHR 0x0A])"
    unfolding piece by blast
  from inst have r3: "trace (snd (embed ?fetch ''var x;'' ?gone ex_world)) =
       [FsStat ''/opt/etherpad/src/static/js/gone.js'', FsStat ''/opt/etherpad/src/static/js'']"
    unfolding tr by blast
  show ?thesis
    by (intro conjI src refs order f1 f2 f3 r1 r2 r3)
qed

text \<open>
  The loopback fetcher answers an unconditional GET with 200 or 404
  (\<open>requestURI_status\<close>), so with it the callback does not come to log. With a fetcher
  that answers 500 for the loader shim, the callback logs and leaves the text as it was.
\<close>

lemma embed_other_status_example:
  "fst (embed ex_fetch ''var x;'' ''../static/js/require-kernel.js'' ex_world) = Return ''var x;''
   \<and> trace (snd (embed ex_fetch ''var x;'' ''../static/js/require-kernel.js'' ex_world)) =
       [ConsoleError ''getAceFile(): error getting http://invalid.invalid/static/js/require-kernel.js. Status code: 500'']"
  by code_simp

end
